theory Spec2Isabelle
  imports Main "HOL-Library.AList" "HOL-Library.Monad_Syntax"
begin

section \<open>Python values\<close>

text \<open>
  A Python \<open>str\<close> is a sequence of Unicode code points. The program compares strings
  for equality, concatenates them and strips whitespace; the code points are kept as
  natural numbers so that \<open>str.strip()\<close> can be modelled for every file content.
\<close>

type_synonym str = "nat list"

definition ascii :: "string \<Rightarrow> str" where
  "ascii = map of_char"

text \<open>
  What \<open>json.loads\<close> returns and \<open>json.dump\<close> accepts. A \<open>dict\<close> keeps its
  insertion order, so it is an association list; lookups take the first entry of a key.
  The program never computes with numbers: an \<open>int\<close> is kept as its value, a
  \<open>float\<close> is named by its \<open>repr\<close>.
\<close>

datatype json =
    JNull
  | JBool bool
  | JInt int
  | JFloat str
  | JStr str
  | JArr "json list"
  | JObj "(str \<times> json) list"

fun is_dict :: "json \<Rightarrow> bool" where
  "is_dict (JObj kvs) = True"
| "is_dict _ = False"

text \<open>The code points for which \<open>str.isspace\<close> holds; \<open>strip()\<close> removes them at both ends.\<close>

definition py_isspace :: "nat \<Rightarrow> bool" where
  "py_isspace c \<longleftrightarrow>
     (9 \<le> c \<and> c \<le> 13) \<or> (28 \<le> c \<and> c \<le> 32) \<or> c = 133 \<or> c = 160 \<or> c = 5760 \<or>
     (8192 \<le> c \<and> c \<le> 8202) \<or> c = 8232 \<or> c = 8233 \<or> c = 8239 \<or> c = 8287 \<or> c = 12288"

definition strip :: "str \<Rightarrow> str" where
  "strip s = rev (dropWhile py_isspace (rev (dropWhile py_isspace s)))"

subsection \<open>Exceptions\<close>

text \<open>
  The Python exceptions the handlers can meet, and what leaves a route: an
  \<open>HTTPException\<close> with its status code and detail, an exception nobody caught (the
  framework answers 500), or a validation error of the framework (422 for a request body,
  500 for a returned value that does not fit the \<open>response_model\<close>).
  \<open>Wrapped p e\<close> is the f-string \<open>f"{p}{str(e)}"\<close>.
\<close>

datatype pyerr =
    KeyError str
  | TypeError
  | AttributeError
  | OSError str
  | JSONDecodeError
  | RecursionError
  | UnicodeDecodeError
  | UnicodeEncodeError

datatype detail = Msg str | Wrapped str pyerr

datatype exn =
    HTTPException nat detail
  | Raised pyerr
  | RequestValidationError
  | ResponseValidationError

fun status_code :: "exn \<Rightarrow> nat" where
  "status_code (HTTPException c _) = c"
| "status_code (Raised _) = 500"
| "status_code RequestValidationError = 422"
| "status_code ResponseValidationError = 500"

subsection \<open>Operations on values\<close>

text \<open>\<open>data[k]\<close> for a string \<open>k\<close>: only a dict can be subscripted by a string.\<close>

fun getitem :: "json \<Rightarrow> str \<Rightarrow> pyerr + json" where
  "getitem (JObj kvs) k = (case map_of kvs k of None \<Rightarrow> Inl (KeyError k) | Some v \<Rightarrow> Inr v)"
| "getitem _ k = Inl TypeError"

text \<open>\<open>m.get(k)\<close>: only a dict has the method; a missing key gives \<open>None\<close>.\<close>

fun dict_get :: "json \<Rightarrow> str \<Rightarrow> pyerr + json" where
  "dict_get (JObj kvs) k = Inr (case map_of kvs k of None \<Rightarrow> JNull | Some v \<Rightarrow> v)"
| "dict_get _ k = Inl AttributeError"

text \<open>
  The sequence a \<open>for\<close> loop or a comprehension runs over: the items of a list, the keys
  of a dict, the characters of a string.
\<close>

fun iter :: "json \<Rightarrow> pyerr + json list" where
  "iter (JArr xs) = Inr xs"
| "iter (JObj kvs) = Inr (map (\<lambda>kv. JStr (fst kv)) kvs)"
| "iter (JStr s) = Inr (map (\<lambda>c. JStr [c]) s)"
| "iter _ = Inl TypeError"

fun len :: "json \<Rightarrow> pyerr + nat" where
  "len (JArr xs) = Inr (length xs)"
| "len (JObj kvs) = Inr (length kvs)"
| "len (JStr s) = Inr (length s)"
| "len _ = Inl TypeError"

text \<open>\<open>d.update(other)\<close>: the keys of \<open>other\<close> are stored in turn; a new key goes last.\<close>

definition dict_update :: "(str \<times> json) list \<Rightarrow> (str \<times> json) list \<Rightarrow> (str \<times> json) list" where
  "dict_update d other = fold (\<lambda>kv. AList.update (fst kv) (snd kv)) other d"

section \<open>The persistence layer\<close>

text \<open>
  The state is the backing file \<open>data.json\<close>: absent, or present with its bytes. All
  the program does with the bytes is decode them as UTF-8 (\<open>encoding='utf-8'\<close>), so they
  are kept as the text that \<open>f.read()\<close> returns, \<open>Utf8 t\<close>, or as \<open>NotUtf8\<close> when
  they are no UTF-8 (invalid bytes, or a file cut inside a multi-byte character): then
  \<open>f.read()\<close> raises \<open>UnicodeDecodeError\<close>. \<open>read_error\<close> and \<open>write_error\<close> stand for the
  operating system: when set, opening the file for reading (or writing) raises
  \<open>OSError\<close> with that message.
\<close>

datatype content = Utf8 str | NotUtf8

record disk =
  data_file :: "content option"
  read_error :: "str option"
  write_error :: "str option"

text \<open>
  The \<open>json\<close> module is a library. \<open>loads js s\<close> is the value of \<open>json.loads(s)\<close> or
  the exception it raises: \<open>JSONDecodeError\<close> for a text that is no JSON,
  \<open>RecursionError\<close> for one nested too deep. \<open>dump js a v\<close> stands for
  \<open>json.dump(v, f, indent=2, ensure_ascii=a)\<close>, which is a loop of \<open>f.write(chunk)\<close>:
  the chunks it writes, in order, and the exception the encoder itself raises after them,
  if it raises one.
\<close>

record json_module =
  loads :: "str \<Rightarrow> pyerr + json"
  dump :: "bool \<Rightarrow> json \<Rightarrow> str list \<times> pyerr option"

text \<open>
  A text file opened with \<open>encoding='utf-8'\<close> encodes each chunk as it is written. A
  surrogate code point has no UTF-8 encoding (nor has a number beyond U+10FFFF, which no
  Python string holds): writing a chunk with one raises \<open>UnicodeEncodeError\<close>. The
  chunks written before it stay in the file, which \<open>open(..., 'w')\<close> had emptied.
\<close>

definition encodable :: "nat \<Rightarrow> bool" where
  "encodable c \<longleftrightarrow> c < 55296 \<or> (57343 < c \<and> c < 1114112)"

fun write_chunks :: "str \<Rightarrow> str list \<Rightarrow> pyerr option \<Rightarrow> (pyerr + unit) \<times> str" where
  "write_chunks written [] None = (Inr (), written)"
| "write_chunks written [] (Some e) = (Inl e, written)"
| "write_chunks written (chunk # chunks) after =
     (if list_all encodable chunk then write_chunks (written @ chunk) chunks after
      else (Inl UnicodeEncodeError, written))"

text \<open>
  \<open>with open(DATA_FILE, 'w', encoding='utf-8') as f: json.dump(v, f, indent=2, ...)\<close>.
  When \<open>open\<close> fails the file is as it was; otherwise it holds what was written until
  the first exception.
\<close>

definition write_file :: "json_module \<Rightarrow> bool \<Rightarrow> json \<Rightarrow> disk \<Rightarrow> (pyerr + unit) \<times> disk" where
  "write_file js ensure_ascii v d =
     (case write_error d of
        Some e \<Rightarrow> (Inl (OSError e), d)
      | None \<Rightarrow>
          (case dump js ensure_ascii v of
             (chunks, after) \<Rightarrow>
               (case write_chunks [] chunks after of
                  (r, written) \<Rightarrow> (r, d\<lparr>data_file := Some (Utf8 written)\<rparr>))))"

text \<open>\<open>with open(DATA_FILE, 'r', encoding='utf-8') as f: content = f.read()\<close>.\<close>

definition read_file :: "disk \<Rightarrow> pyerr + str" where
  "read_file d =
     (case read_error d of
        Some e \<Rightarrow> Inl (OSError e)
      | None \<Rightarrow>
          (case data_file d of
             None \<Rightarrow> Inl (OSError (ascii ''No such file or directory''))
           | Some NotUtf8 \<Rightarrow> Inl UnicodeDecodeError
           | Some (Utf8 t) \<Rightarrow> Inr t))"

definition k_meetings :: str where
  "k_meetings = ascii ''meetings''"

definition k_id :: str where
  "k_id = ascii ''id''"

definition empty_document :: json where
  "empty_document = JObj [(k_meetings, JArr [])]"

definition ensure_data_file :: "json_module \<Rightarrow> disk \<Rightarrow> (pyerr + unit) \<times> disk" where
  "ensure_data_file js d =
     (case data_file d of
        Some _ \<Rightarrow> (Inr (), d)
      | None \<Rightarrow> write_file js True empty_document d)"

text \<open>
  \<open>ensure_data_file()\<close> is called before the \<open>try\<close>, so its exception leaves
  \<open>read_data\<close> as it is. Inside the \<open>try\<close>, \<open>except json.JSONDecodeError\<close> gives the
  empty document and \<open>except Exception\<close> turns every other exception, of \<open>open\<close>, of
  \<open>f.read()\<close> or of \<open>json.loads\<close>, into a 500.
\<close>

definition read_data :: "json_module \<Rightarrow> disk \<Rightarrow> (exn + json) \<times> disk" where
  "read_data js d =
     (case ensure_data_file js d of
        (Inl e, d') \<Rightarrow> (Inl (Raised e), d')
      | (Inr _, d') \<Rightarrow>
          (case read_file d' of
             Inl e \<Rightarrow> (Inl (HTTPException 500 (Wrapped (ascii ''Failed to read data: '') e)), d')
           | Inr content \<Rightarrow>
               if strip content = [] then (Inr empty_document, d')
               else
                 (case loads js content of
                    Inl JSONDecodeError \<Rightarrow> (Inr empty_document, d')
                  | Inl e \<Rightarrow>
                      (Inl (HTTPException 500 (Wrapped (ascii ''Failed to read data: '') e)), d')
                  | Inr v \<Rightarrow> (Inr v, d'))))"

text \<open>
  \<open>write_data\<close>: every exception of \<open>open\<close> or of \<open>json.dump\<close> becomes a 500; the file
  is then left as the failed write left it.
\<close>

definition write_data :: "json_module \<Rightarrow> json \<Rightarrow> disk \<Rightarrow> (exn + bool) \<times> disk" where
  "write_data js doc d =
     (case write_file js False doc d of
        (Inl e, d') \<Rightarrow>
          (Inl (HTTPException 500 (Wrapped (ascii ''Failed to write data: '') e)), d')
      | (Inr _, d') \<Rightarrow> (Inr True, d'))"

section \<open>Request and response models\<close>

text \<open>
  \<open>MeetingsData\<close> has the one field \<open>meetings: List[dict]\<close>. Validating a value against it
  succeeds when the value is a dict whose \<open>meetings\<close> entry is a list of dicts; other keys
  are ignored, and \<open>model_dump()\<close> gives back the one field.
\<close>

record MeetingsData =
  meetings :: "json list"

fun validate_MeetingsData :: "json \<Rightarrow> MeetingsData option" where
  "validate_MeetingsData (JObj kvs) =
     (case map_of kvs k_meetings of
        Some (JArr ms) \<Rightarrow> if list_all is_dict ms then Some \<lparr>meetings = ms\<rparr> else None
      | _ \<Rightarrow> None)"
| "validate_MeetingsData _ = None"

definition model_dump_MeetingsData :: "MeetingsData \<Rightarrow> json" where
  "model_dump_MeetingsData m = JObj [(k_meetings, JArr (meetings m))]"

text \<open>What \<open>response_model=MeetingsData\<close> does with the value a handler returns.\<close>

definition response_MeetingsData :: "json \<Rightarrow> exn + json" where
  "response_MeetingsData v =
     (case validate_MeetingsData v of
        None \<Rightarrow> Inl ResponseValidationError
      | Some m \<Rightarrow> Inr (model_dump_MeetingsData m))"

text \<open>
  \<open>MeetingCreate\<close>: \<open>title\<close> is required and a string; the other declared fields are
  optional strings (a list of strings for \<open>participants\<close>) with default \<open>None\<close>; with
  \<open>extra = "allow"\<close> every other key of the body is kept as it is. Validation fails
  when the body is not an object or one declared field has a value of another type.
\<close>

definition k_title :: str where "k_title = ascii ''title''"
definition k_date :: str where "k_date = ascii ''date''"
definition k_time :: str where "k_time = ascii ''time''"
definition k_participants :: str where "k_participants = ascii ''participants''"
definition k_agenda :: str where "k_agenda = ascii ''agenda''"
definition k_notes :: str where "k_notes = ascii ''notes''"

definition declared_fields :: "str list" where
  "declared_fields = [k_title, k_date, k_time, k_participants, k_agenda, k_notes]"

text \<open>
  A field of type \<open>Optional[str] = None\<close>: the outer \<open>None\<close> is a validation error, the
  inner one the Python value \<open>None\<close> (key absent, or \<open>null\<close>).
\<close>

fun optional_str :: "json option \<Rightarrow> str option option" where
  "optional_str None = Some None"
| "optional_str (Some JNull) = Some None"
| "optional_str (Some (JStr s)) = Some (Some s)"
| "optional_str (Some _) = None"

fun the_str :: "json \<Rightarrow> str option" where
  "the_str (JStr s) = Some s"
| "the_str _ = None"

fun all_str :: "json list \<Rightarrow> str list option" where
  "all_str [] = Some []"
| "all_str (x # xs) =
     (case the_str x of
        None \<Rightarrow> None
      | Some s \<Rightarrow> (case all_str xs of None \<Rightarrow> None | Some ss \<Rightarrow> Some (s # ss)))"

fun optional_str_list :: "json option \<Rightarrow> str list option option" where
  "optional_str_list None = Some None"
| "optional_str_list (Some JNull) = Some None"
| "optional_str_list (Some (JArr xs)) =
     (case all_str xs of None \<Rightarrow> None | Some ss \<Rightarrow> Some (Some ss))"
| "optional_str_list (Some _) = None"

definition dump_str :: "str option \<Rightarrow> json" where
  "dump_str v = (case v of None \<Rightarrow> JNull | Some s \<Rightarrow> JStr s)"

definition dump_str_list :: "str list option \<Rightarrow> json" where
  "dump_str_list v = (case v of None \<Rightarrow> JNull | Some ss \<Rightarrow> JArr (map JStr ss))"

definition extra_items :: "(str \<times> json) list \<Rightarrow> (str \<times> json) list" where
  "extra_items kvs = filter (\<lambda>kv. fst kv \<notin> set declared_fields) kvs"

record MeetingCreate =
  title :: str
  date :: "str option"
  time :: "str option"
  participants :: "str list option"
  agenda :: "str option"
  "notes" :: "str option"
  extra :: "(str \<times> json) list"

fun required_str :: "json option \<Rightarrow> str option" where
  "required_str (Some (JStr s)) = Some s"
| "required_str _ = None"

fun validate_MeetingCreate :: "json \<Rightarrow> MeetingCreate option" where
  "validate_MeetingCreate (JObj kvs) = do {
     t \<leftarrow> required_str (map_of kvs k_title);
     dt \<leftarrow> optional_str (map_of kvs k_date);
     tm \<leftarrow> optional_str (map_of kvs k_time);
     ps \<leftarrow> optional_str_list (map_of kvs k_participants);
     ag \<leftarrow> optional_str (map_of kvs k_agenda);
     nt \<leftarrow> optional_str (map_of kvs k_notes);
     Some \<lparr>title = t, date = dt, time = tm, participants = ps, agenda = ag,
           notes = nt, extra = extra_items kvs\<rparr>
   }"
| "validate_MeetingCreate _ = None"

text \<open>\<open>model_dump()\<close>: the declared fields in their order, then the extra keys.\<close>

definition model_dump_MeetingCreate :: "MeetingCreate \<Rightarrow> (str \<times> json) list" where
  "model_dump_MeetingCreate m =
     [(k_title, JStr (MeetingCreate.title m)),
      (k_date, dump_str (MeetingCreate.date m)),
      (k_time, dump_str (MeetingCreate.time m)),
      (k_participants, dump_str_list (MeetingCreate.participants m)),
      (k_agenda, dump_str (MeetingCreate.agenda m)),
      (k_notes, dump_str (MeetingCreate.notes m))] @ MeetingCreate.extra m"

text \<open>
  \<open>MeetingUpdate\<close>: every declared field is optional. \<open>fields_set\<close> keeps the declared
  fields the request supplied, which \<open>model_dump(exclude_unset=True)\<close> needs.
\<close>

record MeetingUpdate =
  title :: "str option"
  date :: "str option"
  time :: "str option"
  participants :: "str list option"
  agenda :: "str option"
  "notes" :: "str option"
  extra :: "(str \<times> json) list"
  fields_set :: "str list"

fun validate_MeetingUpdate :: "json \<Rightarrow> MeetingUpdate option" where
  "validate_MeetingUpdate (JObj kvs) = do {
     tt \<leftarrow> optional_str (map_of kvs k_title);
     dt \<leftarrow> optional_str (map_of kvs k_date);
     tm \<leftarrow> optional_str (map_of kvs k_time);
     ps \<leftarrow> optional_str_list (map_of kvs k_participants);
     ag \<leftarrow> optional_str (map_of kvs k_agenda);
     nt \<leftarrow> optional_str (map_of kvs k_notes);
     Some \<lparr>title = tt, date = dt, time = tm, participants = ps, agenda = ag,
           notes = nt, extra = extra_items kvs,
           fields_set = filter (\<lambda>k. k \<in> fst ` set kvs) declared_fields\<rparr>
   }"
| "validate_MeetingUpdate _ = None"

definition model_dump_exclude_unset :: "MeetingUpdate \<Rightarrow> (str \<times> json) list" where
  "model_dump_exclude_unset u =
     filter (\<lambda>kv. fst kv \<in> set (fields_set u))
       [(k_title, dump_str (MeetingUpdate.title u)),
        (k_date, dump_str (MeetingUpdate.date u)),
        (k_time, dump_str (MeetingUpdate.time u)),
        (k_participants, dump_str_list (MeetingUpdate.participants u)),
        (k_agenda, dump_str (MeetingUpdate.agenda u)),
        (k_notes, dump_str (MeetingUpdate.notes u))] @ MeetingUpdate.extra u"

record SuccessResponse =
  success :: bool
  message :: str
  data :: "json option"

section \<open>The routes\<close>

subsection \<open>GET /api/meetings\<close>

definition get_all_meetings :: "json_module \<Rightarrow> disk \<Rightarrow> (exn + json) \<times> disk" where
  "get_all_meetings js d = (let (doc, d') = read_data js d in (doc, d'))"

definition route_get_all_meetings :: "json_module \<Rightarrow> disk \<Rightarrow> (exn + json) \<times> disk" where
  "route_get_all_meetings js d =
     (case get_all_meetings js d of
        (Inl e, d') \<Rightarrow> (Inl e, d')
      | (Inr doc, d') \<Rightarrow> (response_MeetingsData doc, d'))"

text \<open>A persisted Document: the root object \<open>{meetings: [...]}\<close> with a list of records.\<close>

fun is_document :: "json \<Rightarrow> bool" where
  "is_document (JObj [(k, JArr ms)]) = (k = k_meetings \<and> list_all is_dict ms)"
| "is_document _ = False"

subsection \<open>Shared pieces of the handlers\<close>

text \<open>
  The handlers end with \<open>except HTTPException: raise\<close> and
  \<open>except Exception as e: raise HTTPException(500, f"...{str(e)}")\<close>.
\<close>

fun reraise :: "str \<Rightarrow> (exn + 'a) \<times> disk \<Rightarrow> (exn + 'a) \<times> disk" where
  "reraise p (Inl (Raised e), d) = (Inl (HTTPException 500 (Wrapped p e)), d)"
| "reraise p r = r"

definition not_found :: "str \<Rightarrow> exn" where
  "not_found meeting_id =
     HTTPException 404 (Msg (ascii ''Meeting with ID '' @ [39] @ meeting_id @ [39] @ ascii '' not found''))"

text \<open>
  Storing a new list under \<open>doc['meetings']\<close>. The handlers reach it only after
  \<open>doc['meetings']\<close> was read, so \<open>doc\<close> is a dict that has the key; the list mutated in
  place by \<open>append\<close> and \<open>update\<close> is the one the document holds.
\<close>

fun store_meetings :: "json \<Rightarrow> json \<Rightarrow> json" where
  "store_meetings (JObj kvs) v = JObj (AList.update k_meetings v kvs)"
| "store_meetings doc v = doc"

text \<open>\<open>ms.append(v)\<close>: only a list has the method.\<close>

fun list_append :: "json \<Rightarrow> json \<Rightarrow> pyerr + json list" where
  "list_append (JArr xs) v = Inr (xs @ [v])"
| "list_append _ v = Inl AttributeError"

subsection \<open>POST /api/meetings\<close>

text \<open>\<open>uuid4\<close> is the string \<open>str(uuid.uuid4())\<close> that this call draws.\<close>

definition create_meeting ::
    "json_module \<Rightarrow> str \<Rightarrow> disk \<Rightarrow> MeetingCreate \<Rightarrow> (exn + SuccessResponse) \<times> disk" where
  "create_meeting js uuid4 d meeting =
     reraise (ascii ''Failed to create meeting: '')
       (case read_data js d of
          (Inl e, d1) \<Rightarrow> (Inl e, d1)
        | (Inr doc, d1) \<Rightarrow>
            (let meeting_id = uuid4;
                 new_meeting = AList.update k_id (JStr meeting_id) (model_dump_MeetingCreate meeting)
             in case getitem doc k_meetings of
                  Inl e \<Rightarrow> (Inl (Raised e), d1)
                | Inr ms \<Rightarrow>
                    (case list_append ms (JObj new_meeting) of
                       Inl e \<Rightarrow> (Inl (Raised e), d1)
                     | Inr ms' \<Rightarrow>
                         (case write_data js (store_meetings doc (JArr ms')) d1 of
                            (Inl e, d2) \<Rightarrow> (Inl e, d2)
                          | (Inr _, d2) \<Rightarrow>
                              (Inr \<lparr>success = True,
                                    message = ascii ''Meeting created successfully'',
                                    data = Some (JObj new_meeting)\<rparr>, d2)))))"

definition route_create_meeting ::
    "json_module \<Rightarrow> str \<Rightarrow> disk \<Rightarrow> json \<Rightarrow> (exn + SuccessResponse) \<times> disk" where
  "route_create_meeting js uuid4 d body =
     (case validate_MeetingCreate body of
        None \<Rightarrow> (Inl RequestValidationError, d)
      | Some meeting \<Rightarrow> create_meeting js uuid4 d meeting)"

subsection \<open>GET /api/meetings/{meeting_id}\<close>

text \<open>The loop \<open>for meeting in ...: if meeting.get('id') == meeting_id: return meeting\<close>.\<close>

fun find_meeting :: "str \<Rightarrow> json list \<Rightarrow> pyerr + json option" where
  "find_meeting meeting_id [] = Inr None"
| "find_meeting meeting_id (meeting # rest) =
     (case dict_get meeting k_id of
        Inl e \<Rightarrow> Inl e
      | Inr v \<Rightarrow> if v = JStr meeting_id then Inr (Some meeting) else find_meeting meeting_id rest)"

definition get_meeting_by_id :: "json_module \<Rightarrow> disk \<Rightarrow> str \<Rightarrow> (exn + json) \<times> disk" where
  "get_meeting_by_id js d meeting_id =
     (case read_data js d of
        (Inl e, d1) \<Rightarrow> (Inl e, d1)
      | (Inr doc, d1) \<Rightarrow>
          (case getitem doc k_meetings of
             Inl e \<Rightarrow> (Inl (Raised e), d1)
           | Inr ms \<Rightarrow>
               (case iter ms of
                  Inl e \<Rightarrow> (Inl (Raised e), d1)
                | Inr xs \<Rightarrow>
                    (case find_meeting meeting_id xs of
                       Inl e \<Rightarrow> (Inl (Raised e), d1)
                     | Inr (Some meeting) \<Rightarrow> (Inr meeting, d1)
                     | Inr None \<Rightarrow> (Inl (not_found meeting_id), d1)))))"

subsection \<open>PUT /api/meetings/{meeting_id}\<close>

text \<open>
  The loop over \<open>enumerate(doc['meetings'])\<close> up to the first record whose \<open>id\<close> is the
  path identifier; the body of the \<open>if\<close> returns, so no later record is looked at.
  \<^const>\<open>List.enumerate\<close> pairs the items with their indices from a start value, as
  Python's \<open>enumerate\<close> does.
\<close>

fun first_match :: "str \<Rightarrow> (nat \<times> json) list \<Rightarrow> pyerr + (nat \<times> json) option" where
  "first_match meeting_id [] = Inr None"
| "first_match meeting_id ((i, meeting) # rest) =
     (case dict_get meeting k_id of
        Inl e \<Rightarrow> Inl e
      | Inr v \<Rightarrow> if v = JStr meeting_id then Inr (Some (i, meeting)) else first_match meeting_id rest)"

text \<open>\<open>m.update(other)\<close> on a value: only a dict has the method.\<close>

fun update_method :: "json \<Rightarrow> (str \<times> json) list \<Rightarrow> pyerr + json" where
  "update_method (JObj kvs) other = Inr (JObj (dict_update kvs other))"
| "update_method _ other = Inl AttributeError"

definition update_meeting ::
    "json_module \<Rightarrow> disk \<Rightarrow> str \<Rightarrow> MeetingUpdate \<Rightarrow> (exn + SuccessResponse) \<times> disk" where
  "update_meeting js d meeting_id meeting_update =
     reraise (ascii ''Failed to update meeting: '')
       (case read_data js d of
          (Inl e, d1) \<Rightarrow> (Inl e, d1)
        | (Inr doc, d1) \<Rightarrow>
            (case getitem doc k_meetings of
               Inl e \<Rightarrow> (Inl (Raised e), d1)
             | Inr ms \<Rightarrow>
                 (case iter ms of
                    Inl e \<Rightarrow> (Inl (Raised e), d1)
                  | Inr xs \<Rightarrow>
                      (case first_match meeting_id (List.enumerate 0 xs) of
                         Inl e \<Rightarrow> (Inl (Raised e), d1)
                       | Inr None \<Rightarrow> (Inl (not_found meeting_id), d1)
                       | Inr (Some (i, meeting)) \<Rightarrow>
                           (let update_data = model_dump_exclude_unset meeting_update
                            in case update_method meeting update_data of
                                 Inl e \<Rightarrow> (Inl (Raised e), d1)
                               | Inr updated \<Rightarrow>
                                   (case write_data js (store_meetings doc (JArr (xs[i := updated]))) d1 of
                                      (Inl e, d2) \<Rightarrow> (Inl e, d2)
                                    | (Inr _, d2) \<Rightarrow>
                                        (Inr \<lparr>success = True,
                                              message = ascii ''Meeting updated successfully'',
                                              data = Some updated\<rparr>, d2)))))))"

definition route_update_meeting ::
    "json_module \<Rightarrow> disk \<Rightarrow> str \<Rightarrow> json \<Rightarrow> (exn + SuccessResponse) \<times> disk" where
  "route_update_meeting js d meeting_id body =
     (case validate_MeetingUpdate body of
        None \<Rightarrow> (Inl RequestValidationError, d)
      | Some meeting_update \<Rightarrow> update_meeting js d meeting_id meeting_update)"

subsection \<open>DELETE /api/meetings/{meeting_id}\<close>

text \<open>The comprehension \<open>[m for m in ... if m.get('id') != meeting_id]\<close>.\<close>

fun keep_others :: "str \<Rightarrow> json list \<Rightarrow> pyerr + json list" where
  "keep_others meeting_id [] = Inr []"
| "keep_others meeting_id (m # rest) =
     (case dict_get m k_id of
        Inl e \<Rightarrow> Inl e
      | Inr v \<Rightarrow>
          (case keep_others meeting_id rest of
             Inl e \<Rightarrow> Inl e
           | Inr kept \<Rightarrow> Inr (if v \<noteq> JStr meeting_id then m # kept else kept)))"

definition delete_meeting ::
    "json_module \<Rightarrow> disk \<Rightarrow> str \<Rightarrow> (exn + SuccessResponse) \<times> disk" where
  "delete_meeting js d meeting_id =
     reraise (ascii ''Failed to delete meeting: '')
       (case read_data js d of
          (Inl e, d1) \<Rightarrow> (Inl e, d1)
        | (Inr doc, d1) \<Rightarrow>
            (case getitem doc k_meetings of
               Inl e \<Rightarrow> (Inl (Raised e), d1)
             | Inr ms \<Rightarrow>
                 (case len ms of
                    Inl e \<Rightarrow> (Inl (Raised e), d1)
                  | Inr initial_length \<Rightarrow>
                      (case iter ms of
                         Inl e \<Rightarrow> (Inl (Raised e), d1)
                       | Inr xs \<Rightarrow>
                           (case keep_others meeting_id xs of
                              Inl e \<Rightarrow> (Inl (Raised e), d1)
                            | Inr kept \<Rightarrow>
                                if length kept = initial_length
                                then (Inl (not_found meeting_id), d1)
                                else
                                  (case write_data js (store_meetings doc (JArr kept)) d1 of
                                     (Inl e, d2) \<Rightarrow> (Inl e, d2)
                                   | (Inr _, d2) \<Rightarrow>
                                       (Inr \<lparr>success = True,
                                             message = ascii ''Meeting deleted successfully'',
                                             data = None\<rparr>, d2)))))))"

subsection \<open>POST /api/meetings/bulk\<close>

text \<open>
  \<open>hasattr(data, 'meetings')\<close>: the handler receives a validated \<open>MeetingsData\<close>, and every
  instance of the model has its declared field.
\<close>

definition hasattr_meetings :: "MeetingsData \<Rightarrow> bool" where
  "hasattr_meetings m = True"

definition save_all_meetings ::
    "json_module \<Rightarrow> disk \<Rightarrow> MeetingsData \<Rightarrow> (exn + SuccessResponse) \<times> disk" where
  "save_all_meetings js d md =
     reraise (ascii ''Failed to save data: '')
       (if \<not> hasattr_meetings md
        then (Inl (HTTPException 400
                (Msg (ascii ''Invalid JSON data: '' @ [39] @ k_meetings @ [39] @ ascii '' key required''))), d)
        else
          (let data_dict = model_dump_MeetingsData md
           in case write_data js data_dict d of
                (Inl e, d1) \<Rightarrow> (Inl e, d1)
              | (Inr _, d1) \<Rightarrow>
                  (Inr \<lparr>success = True,
                        message = ascii ''All meetings data saved successfully'',
                        data = None\<rparr>, d1)))"

definition route_save_all_meetings ::
    "json_module \<Rightarrow> disk \<Rightarrow> json \<Rightarrow> (exn + SuccessResponse) \<times> disk" where
  "route_save_all_meetings js d body =
     (case validate_MeetingsData body of
        None \<Rightarrow> (Inl RequestValidationError, d)
      | Some md \<Rightarrow> save_all_meetings js d md)"

section \<open>Notions used by the properties\<close>

text \<open>A record carries the identifier when \<open>m.get('id') == meeting_id\<close> holds.\<close>

definition has_id :: "str \<Rightarrow> json \<Rightarrow> bool" where
  "has_id meeting_id m \<longleftrightarrow> dict_get m k_id = Inr (JStr meeting_id)"

text \<open>
  \<open>written_text js doc\<close> is the text of the file after \<open>json.dump\<close> has written
  \<open>doc\<close> whole: the encoder raised nothing and every chunk could be encoded.
\<close>

definition written_text :: "json_module \<Rightarrow> json \<Rightarrow> str option" where
  "written_text js doc =
     (case dump js False doc of
        (chunks, None) \<Rightarrow>
          if list_all (list_all encodable) chunks then Some (concat chunks) else None
      | (chunks, Some e) \<Rightarrow> None)"

text \<open>
  The contract of the \<open>json\<close> module that reading after a write relies on, for one
  document: it is written whole, as a text that is not blank and parses back to the
  document.
\<close>

definition reads_back :: "json_module \<Rightarrow> json \<Rightarrow> str \<Rightarrow> bool" where
  "reads_back js doc t \<longleftrightarrow>
     written_text js doc = Some t \<and> strip t \<noteq> [] \<and> loads js t = Inr doc"

section \<open>A small json module and example stores\<close>

text \<open>
  The handlers never look at the text of the file; they only pass it from \<open>json.dump\<close>
  to \<open>json.loads\<close>. The properties therefore hold for every \<open>json_module\<close>, and
  here is a small one to run them on: a printer that writes on one line and in one
  chunk, with \<open>", "\<close> and \<open>": "\<close> as separators and every character of a string
  as it is, and a reader for null, booleans, integers, strings without escapes, arrays
  and objects, which raises \<open>JSONDecodeError\<close> on every other text. The reader takes
  fuel; twice the length of the text is more than the number of calls it makes.
\<close>

fun show_nat :: "nat \<Rightarrow> str" where
  "show_nat n = (if n < 10 then [48 + n] else show_nat (n div 10) @ [48 + n mod 10])"

declare show_nat.simps [simp del]

definition show_int :: "int \<Rightarrow> str" where
  "show_int i = (if i < 0 then 45 # show_nat (nat (- i)) else show_nat (nat i))"

fun join :: "str \<Rightarrow> str list \<Rightarrow> str" where
  "join sep [] = []"
| "join sep [x] = x"
| "join sep (x # y # ys) = x @ sep @ join sep (y # ys)"

definition quoted :: "str \<Rightarrow> str" where
  "quoted s = [34] @ s @ [34]"

fun show_json :: "json \<Rightarrow> str" where
  "show_json JNull = ascii ''null''"
| "show_json (JBool b) = (if b then ascii ''true'' else ascii ''false'')"
| "show_json (JInt i) = show_int i"
| "show_json (JFloat r) = r"
| "show_json (JStr s) = quoted s"
| "show_json (JArr xs) = [91] @ join (ascii '', '') (map show_json xs) @ [93]"
| "show_json (JObj kvs) =
     [123] @ join (ascii '', '') (map (\<lambda>kv. quoted (fst kv) @ ascii '': '' @ show_json (snd kv)) kvs) @ [125]"

definition json_ws :: "nat \<Rightarrow> bool" where
  "json_ws c \<longleftrightarrow> c = 32 \<or> c = 9 \<or> c = 10 \<or> c = 13"

definition skip_ws :: "str \<Rightarrow> str" where
  "skip_ws = dropWhile json_ws"

fun read_string :: "str \<Rightarrow> (str \<times> str) option" where
  "read_string [] = None"
| "read_string (c # cs) =
     (if c = 34 then Some ([], cs)
      else if c = 92 \<or> c < 32 then None
      else (case read_string cs of None \<Rightarrow> None | Some (s, r) \<Rightarrow> Some (c # s, r)))"

definition is_digit :: "nat \<Rightarrow> bool" where
  "is_digit c \<longleftrightarrow> 48 \<le> c \<and> c \<le> 57"

definition read_nat :: "str \<Rightarrow> nat" where
  "read_nat ds = foldl (\<lambda>n c. 10 * n + (c - 48)) 0 ds"

fun read_value :: "nat \<Rightarrow> str \<Rightarrow> (json \<times> str) option"
  and read_elements :: "nat \<Rightarrow> json list \<Rightarrow> str \<Rightarrow> (json \<times> str) option"
  and read_members :: "nat \<Rightarrow> (str \<times> json) list \<Rightarrow> str \<Rightarrow> (json \<times> str) option" where
  "read_value 0 s = None"
| "read_value (Suc n) s =
     (case skip_ws s of
        [] \<Rightarrow> None
      | c # cs \<Rightarrow>
          if c = 34 then (case read_string cs of None \<Rightarrow> None | Some (t, r) \<Rightarrow> Some (JStr t, r))
          else if c = 91 then
            (case skip_ws cs of
               [] \<Rightarrow> None
             | c' # r \<Rightarrow> if c' = 93 then Some (JArr [], r) else read_elements n [] cs)
          else if c = 123 then
            (case skip_ws cs of
               [] \<Rightarrow> None
             | c' # r \<Rightarrow> if c' = 125 then Some (JObj [], r) else read_members n [] cs)
          else if take 4 (c # cs) = ascii ''null'' then Some (JNull, drop 4 (c # cs))
          else if take 4 (c # cs) = ascii ''true'' then Some (JBool True, drop 4 (c # cs))
          else if take 5 (c # cs) = ascii ''false'' then Some (JBool False, drop 5 (c # cs))
          else if is_digit c then
            Some (JInt (int (read_nat (takeWhile is_digit (c # cs)))), dropWhile is_digit cs)
          else if c = 45 \<and> takeWhile is_digit cs \<noteq> [] then
            Some (JInt (- int (read_nat (takeWhile is_digit cs))), dropWhile is_digit cs)
          else None)"
| "read_elements 0 acc s = None"
| "read_elements (Suc n) acc s =
     (case read_value n s of
        None \<Rightarrow> None
      | Some (v, r) \<Rightarrow>
          (case skip_ws r of
             [] \<Rightarrow> None
           | c # r' \<Rightarrow>
               if c = 93 then Some (JArr (acc @ [v]), r')
               else if c = 44 then read_elements n (acc @ [v]) r'
               else None))"
| "read_members 0 acc s = None"
| "read_members (Suc n) acc s =
     (case skip_ws s of
        [] \<Rightarrow> None
      | q # s' \<Rightarrow>
          if q \<noteq> 34 then None
          else
            (case read_string s' of
               None \<Rightarrow> None
             | Some (k, r) \<Rightarrow>
                 (case skip_ws r of
                    [] \<Rightarrow> None
                  | colon # r1 \<Rightarrow>
                      if colon \<noteq> 58 then None
                      else
                        (case read_value n r1 of
                           None \<Rightarrow> None
                         | Some (v, r2) \<Rightarrow>
                             (case skip_ws r2 of
                                [] \<Rightarrow> None
                              | c # r3 \<Rightarrow>
                                  if c = 125 then Some (JObj (AList.update k v acc), r3)
                                  else if c = 44 then read_members n (AList.update k v acc) r3
                                  else None)))))"

definition demo_loads :: "str \<Rightarrow> pyerr + json" where
  "demo_loads s =
     (case read_value (2 * length s + 2) s of
        None \<Rightarrow> Inl JSONDecodeError
      | Some (v, r) \<Rightarrow> if skip_ws r = [] then Inr v else Inl JSONDecodeError)"

definition demo_dump :: "bool \<Rightarrow> json \<Rightarrow> str list \<times> pyerr option" where
  "demo_dump ensure_ascii v = ([show_json v], None)"

definition demo_json :: json_module where
  "demo_json = \<lparr>loads = demo_loads, dump = demo_dump\<rparr>"

definition example_text :: str where
  "example_text = ascii
     ''{\"meetings\": [{\"id\": \"x\", \"title\": \"A\", \"agenda\": \"B\"}, {\"id\": \"y\", \"title\": \"T\"}, {\"id\": \"x\"}]}''"

definition example_meetings :: "json list" where
  "example_meetings =
     [JObj [(k_id, JStr (ascii ''x'')), (k_title, JStr (ascii ''A'')), (k_agenda, JStr (ascii ''B''))],
      JObj [(k_id, JStr (ascii ''y'')), (k_title, JStr (ascii ''T''))],
      JObj [(k_id, JStr (ascii ''x''))]]"

definition example_disk :: disk where
  "example_disk = \<lparr>data_file = Some (Utf8 example_text), read_error = None, write_error = None\<rparr>"

definition garbage_disk :: disk where
  "garbage_disk = \<lparr>data_file = Some (Utf8 (ascii ''not json'')), read_error = None, write_error = None\<rparr>"

definition blank_disk :: disk where
  "blank_disk = \<lparr>data_file = Some (Utf8 [32, 10, 9, 8195]), read_error = None, write_error = None\<rparr>"

definition unique_text :: str where
  "unique_text = ascii
     ''{\"meetings\": [{\"id\": \"x\", \"title\": \"A\", \"agenda\": \"B\"}, {\"id\": \"y\", \"title\": \"T\"}]}''"

definition unique_meetings :: "json list" where
  "unique_meetings =
     [JObj [(k_id, JStr (ascii ''x'')), (k_title, JStr (ascii ''A'')), (k_agenda, JStr (ascii ''B''))],
      JObj [(k_id, JStr (ascii ''y'')), (k_title, JStr (ascii ''T''))]]"

definition unique_disk :: disk where
  "unique_disk = \<lparr>data_file = Some (Utf8 unique_text), read_error = None, write_error = None\<rparr>"

definition binary_disk :: disk where
  "binary_disk = \<lparr>data_file = Some NotUtf8, read_error = None, write_error = None\<rparr>"

definition single_text :: str where
  "single_text = ascii ''{\"meetings\": [{\"id\": \"y\", \"title\": \"T\"}]}''"

definition single_meetings :: "json list" where
  "single_meetings = [JObj [(k_id, JStr (ascii ''y'')), (k_title, JStr (ascii ''T''))]]"

definition single_disk :: disk where
  "single_disk = \<lparr>data_file = Some (Utf8 single_text), read_error = None, write_error = None\<rparr>"

definition create_body :: json where
  "create_body = JObj [(k_title, JStr (ascii ''N'')), (k_id, JStr (ascii ''client''))]"

definition created_record :: "(str \<times> json) list" where
  "created_record =
     [(k_title, JStr (ascii ''N'')), (k_date, JNull), (k_time, JNull), (k_participants, JNull),
      (k_agenda, JNull), (k_notes, JNull), (k_id, JStr (ascii ''u1''))]"

definition created_text :: str where
  "created_text = ascii
     ''{\"meetings\": [{\"id\": \"y\", \"title\": \"T\"}, {\"title\": \"N\", \"date\": null, \"time\": null, \"participants\": null, \"agenda\": null, \"notes\": null, \"id\": \"u1\"}]}''"

definition updated_text :: str where
  "updated_text = ascii
     ''{\"meetings\": [{\"id\": \"x\", \"title\": \"C\", \"agenda\": \"B\"}, {\"id\": \"y\", \"title\": \"T\"}]}''"

definition clashing_text :: str where
  "clashing_text = ascii
     ''{\"meetings\": [{\"id\": \"y\", \"title\": \"A\", \"agenda\": \"B\"}, {\"id\": \"y\", \"title\": \"T\"}]}''"

definition surrogate_body :: json where
  "surrogate_body = JObj [(k_title, JStr (ascii ''t'')), (ascii ''x'', JStr [55296])]"

definition bulk_body :: json where
  "bulk_body = JObj [(k_meetings, JArr [JObj [(k_id, JStr (ascii ''c'')), (k_title, JStr (ascii ''C''))]])]"

definition bulk_text :: str where
  "bulk_text = ascii ''{\"meetings\": [{\"id\": \"c\", \"title\": \"C\"}]}''"

section \<open>Properties\<close>

lemma ascii_eq_iff [simp]: "ascii a = ascii b \<longleftrightarrow> a = b"
  unfolding ascii_def by (rule inj_map_eq_map) (simp add: inj_on_def)

lemma dropWhile_all_iff: "(\<forall>x\<in>set (dropWhile P s). P x) \<longleftrightarrow> (\<forall>x\<in>set s. P x)"
  by (induction s) auto

lemma strip_empty_iff: "strip s = [] \<longleftrightarrow> list_all py_isspace s"
  by (simp add: strip_def dropWhile_eq_Nil_conv list_all_iff dropWhile_all_iff)

lemma brace_not_blank: "strip (ascii (CHR ''{'' # cs)) \<noteq> []"
  by (simp add: strip_empty_iff ascii_def py_isspace_def)

lemma write_chunks_whole:
  "list_all (list_all encodable) chunks \<Longrightarrow>
     write_chunks written chunks None = (Inr (), written @ concat chunks)"
  by (induction chunks arbitrary: written) simp_all

lemma write_chunks_Inr:
  "write_chunks written chunks after = (Inr u, t) \<Longrightarrow>
     after = None \<and> list_all (list_all encodable) chunks \<and> t = written @ concat chunks"
  by (induction written chunks after rule: write_chunks.induct) (auto split: if_splits)

lemma write_file_state:
  assumes "write_file js a v d = (r, d1)"
  shows "read_error d1 = read_error d" and "write_error d1 = write_error d"
  using assms by (auto simp: write_file_def split: option.splits prod.splits)

lemma read_data_existing:
  assumes "data_file d = Some (Utf8 content)" and "read_error d = None"
  shows "read_data js d =
     (if strip content = [] then (Inr empty_document, d)
      else
        (case loads js content of
           Inl JSONDecodeError \<Rightarrow> (Inr empty_document, d)
         | Inl e \<Rightarrow> (Inl (HTTPException 500 (Wrapped (ascii ''Failed to read data: '') e)), d)
         | Inr v \<Rightarrow> (Inr v, d)))"
  using assms by (simp add: read_data_def ensure_data_file_def read_file_def)

lemma is_document_response:
  assumes "is_document v"
  shows "response_MeetingsData v = Inr v"
proof -
  from assms obtain ms where v: "v = JObj [(k_meetings, JArr ms)]" and ms: "list_all is_dict ms"
    by (cases v rule: is_document.cases) auto
  show ?thesis
    by (simp add: v ms response_MeetingsData_def model_dump_MeetingsData_def)
qed

subsection \<open>The persistence layer\<close>

lemma read_data_present:
  assumes "data_file d \<noteq> None"
  shows "snd (read_data js d) = d"
  using assms
  by (auto simp: read_data_def ensure_data_file_def split: option.splits sum.splits pyerr.splits)

lemma read_data_state:
  assumes "read_data js d = (r, d1)"
  shows "read_error d1 = read_error d" and "write_error d1 = write_error d"
    and "data_file d \<noteq> None \<Longrightarrow> d1 = d"
proof -
  obtain e d' where e: "ensure_data_file js d = (e, d')"
    by (cases "ensure_data_file js d")
  have s: "read_error d' = read_error d \<and> write_error d' = write_error d"
    using e write_file_state [of js True empty_document d e d']
    by (auto simp: ensure_data_file_def split: option.splits)
  have d1: "d1 = d'"
    using assms e
    by (auto simp: read_data_def split: sum.splits pyerr.splits if_splits)
  from s d1 show "read_error d1 = read_error d" and "write_error d1 = write_error d"
    by simp_all
  show "data_file d \<noteq> None \<Longrightarrow> d1 = d"
    using read_data_present [of d js] assms by simp
qed

lemma read_data_ok:
  assumes "read_data js d = (Inr doc, d1)"
  shows "read_error d1 = None" and "\<exists>t. data_file d1 = Some (Utf8 t)"
  using assms
  by (auto simp: read_data_def read_file_def
           split: prod.splits sum.splits option.splits content.splits if_splits pyerr.splits)

lemma read_data_again:
  assumes "read_data js d = (Inr doc, d1)"
  shows "read_data js d1 = (Inr doc, d1)"
proof -
  from read_data_ok [OF assms] obtain t where t: "data_file d1 = Some (Utf8 t)"
    and r: "read_error d1 = None"
    by blast
  obtain e d' where e: "ensure_data_file js d = (e, d')"
    by (cases "ensure_data_file js d")
  from assms e have d1: "d1 = d'" and "e = Inr ()"
    by (auto simp: read_data_def split: sum.splits pyerr.splits if_splits)
  with assms e t r show ?thesis
    unfolding read_data_existing [OF t r]
    by (auto simp: read_data_def read_file_def split: sum.splits pyerr.splits if_splits)
qed

text \<open>
  The faults of reading: bytes that are no UTF-8, and an exception of \<open>json.loads\<close> other
  than \<open>JSONDecodeError\<close>, surface as a 500.
\<close>

lemma read_data_undecodable:
  assumes "data_file d = Some NotUtf8" and "read_error d = None"
  shows "read_data js d =
     (Inl (HTTPException 500 (Wrapped (ascii ''Failed to read data: '') UnicodeDecodeError)), d)"
  using assms by (simp add: read_data_def ensure_data_file_def read_file_def)

lemma read_data_parser_fault:
  assumes "data_file d = Some (Utf8 content)" and "read_error d = None"
    and "strip content \<noteq> []" and "loads js content = Inl e" and "e \<noteq> JSONDecodeError"
  shows "read_data js d =
     (Inl (HTTPException 500 (Wrapped (ascii ''Failed to read data: '') e)), d)"
  using assms by (cases e) (simp_all add: read_data_existing)

text \<open>Writing: when \<open>open\<close> succeeds and the document is written whole, and only then,
  \<open>write_data\<close> returns; the file then holds the text written.\<close>

lemma write_data_ok:
  assumes "write_error d = None" and "written_text js doc = Some t"
  shows "write_data js doc d = (Inr True, d\<lparr>data_file := Some (Utf8 t)\<rparr>)"
  using assms
  by (auto simp: write_data_def write_file_def written_text_def write_chunks_whole
           split: prod.splits option.splits if_splits)

lemma write_data_Inr:
  assumes "write_data js doc d = (Inr b, d2)"
  shows "write_error d = None"
    and "\<exists>t. written_text js doc = Some t \<and> d2 = d\<lparr>data_file := Some (Utf8 t)\<rparr>"
  using assms
  by (auto simp: write_data_def write_file_def written_text_def
           split: prod.splits option.splits sum.splits dest!: write_chunks_Inr)

lemma write_data_not_400:
  "fst (write_data js doc d) \<noteq> Inl (HTTPException 400 x)"
  by (auto simp: write_data_def split: prod.splits sum.splits)

text \<open>
  A write that fails after \<open>open\<close> leaves the file with what was written before the
  exception: a document with a lone surrogate fails with a 500 at the chunk that holds
  it.
\<close>

lemma write_data_unencodable:
  assumes "write_error d = None" and "dump js False doc = (chunks, after)"
    and "\<not> list_all (list_all encodable) chunks"
  shows "\<exists>t. write_data js doc d =
     (Inl (HTTPException 500 (Wrapped (ascii ''Failed to write data: '') UnicodeEncodeError)),
      d\<lparr>data_file := Some (Utf8 t)\<rparr>)"
proof -
  have "\<And>written. \<not> list_all (list_all encodable) chunks \<Longrightarrow>
      \<exists>t. write_chunks written chunks after = (Inl UnicodeEncodeError, t)"
    by (induction chunks) auto
  with assms(3) obtain t where "write_chunks [] chunks after = (Inl UnicodeEncodeError, t)"
    by blast
  with assms(1,2) show ?thesis
    by (auto simp: write_data_def write_file_def)
qed

lemma read_after_write:
  assumes "reads_back js doc t" and "read_error d = None"
  shows "read_data js (d\<lparr>data_file := Some (Utf8 t)\<rparr>) =
         (Inr doc, d\<lparr>data_file := Some (Utf8 t)\<rparr>)"
  using assms by (simp add: read_data_existing reads_back_def)

lemma getitem_store_meetings:
  "getitem doc k_meetings = Inr v \<Longrightarrow> getitem (store_meetings doc v') k_meetings = Inr v'"
  by (cases doc) (simp_all add: update_conv')

subsection \<open>The example stores\<close>

lemma ascii_encodable: "list_all encodable (ascii s)"
proof -
  have "of_char c < (256::nat)" for c
    by (cases c) (simp add: of_char_def)
  moreover have "encodable n" if "n < 256" for n
    using that unfolding encodable_def by linarith
  ultimately have "encodable (of_char c)" for c
    by blast
  then show ?thesis
    by (simp add: ascii_def list_all_iff)
qed

lemma demo_written_text:
  "show_json v = ascii s \<Longrightarrow> written_text demo_json v = Some (ascii s)"
  by (simp add: written_text_def demo_json_def demo_dump_def ascii_encodable)

lemma demo_reads_back:
  assumes "show_json v = ascii s" and "strip (ascii s) \<noteq> []"
    and "loads demo_json (ascii s) = Inr v"
  shows "reads_back demo_json v (ascii s)"
  using assms by (simp add: reads_back_def demo_written_text)

lemma example_loads:
  "loads demo_json example_text = Inr (JObj [(k_meetings, JArr example_meetings)])"
  unfolding demo_json_def example_text_def example_meetings_def by code_simp

lemma example_not_blank: "strip example_text \<noteq> []"
  unfolding example_text_def by (rule brace_not_blank)

lemma example_read:
  "read_data demo_json example_disk = (Inr (JObj [(k_meetings, JArr example_meetings)]), example_disk)"
  using example_loads example_not_blank
  by (simp add: read_data_existing example_disk_def)

lemma example_dicts: "list_all is_dict example_meetings"
  by (simp add: example_meetings_def)

subsection \<open>Reading a corrupt or empty store\<close>

text \<open>
  C6, as the code has it. When the backing file holds UTF-8 text that is empty, only
  whitespace, or rejected by \<open>json.loads\<close> with \<open>JSONDecodeError\<close>, \<open>read_data\<close>
  returns \<open>{meetings: []}\<close> and raises nothing, and the list route answers
  \<open>{meetings: []}\<close>; the file is left as it is.
\<close>

theorem unparseable_text_reads_empty:
  assumes "data_file d = Some (Utf8 content)" and "read_error d = None"
    and "content = [] \<or> list_all py_isspace content \<or> loads js content = Inl JSONDecodeError"
  shows "read_data js d = (Inr empty_document, d)
       \<and> route_get_all_meetings js d = (Inr (JObj [(k_meetings, JArr [])]), d)"
proof -
  have blank: "content = [] \<Longrightarrow> strip content = []"
    by (simp add: strip_def)
  have r: "read_data js d = (Inr empty_document, d)"
    using assms blank by (auto simp: read_data_existing strip_empty_iff)
  have "is_document empty_document"
    by (simp add: empty_document_def)
  then have "response_MeetingsData empty_document = Inr empty_document"
    by (rule is_document_response)
  with r show ?thesis
    by (simp add: route_get_all_meetings_def get_all_meetings_def empty_document_def)
qed

theorem unparseable_text_reads_empty_witness:
  "loads demo_json (ascii ''not json'') = Inl JSONDecodeError
   \<and> read_data demo_json garbage_disk = (Inr empty_document, garbage_disk)
   \<and> route_get_all_meetings demo_json garbage_disk = (Inr (JObj [(k_meetings, JArr [])]), garbage_disk)
   \<and> list_all py_isspace [32, 10, 9, 8195]
   \<and> read_data demo_json blank_disk = (Inr empty_document, blank_disk)"
proof -
  have g1: "data_file garbage_disk = Some (Utf8 (ascii ''not json''))"
    by (simp add: garbage_disk_def)
  have g2: "read_error garbage_disk = None"
    by (simp add: garbage_disk_def)
  have g3: "loads demo_json (ascii ''not json'') = Inl JSONDecodeError"
    unfolding demo_json_def by code_simp
  from g3 have g4: "ascii ''not json'' = [] \<or> list_all py_isspace (ascii ''not json'')
      \<or> loads demo_json (ascii ''not json'') = Inl JSONDecodeError"
    by simp
  have b1: "data_file blank_disk = Some (Utf8 [32, 10, 9, 8195])"
    by (simp add: blank_disk_def)
  have b2: "read_error blank_disk = None"
    by (simp add: blank_disk_def)
  have b3: "list_all py_isspace [32, 10, 9, 8195]"
    by (simp add: py_isspace_def)
  from b3 have b4: "[32, 10, 9, 8195] = [] \<or> list_all py_isspace [32, 10, 9, 8195]
      \<or> loads demo_json [32, 10, 9, 8195] = Inl JSONDecodeError"
    by simp
  show ?thesis
    using unparseable_text_reads_empty [OF g1 g2 g4]
      unparseable_text_reads_empty [OF b1 b2 b4] g3 b3
    by simp
qed

text \<open>
  C6 does not hold of every content that is no JSON. A backing file whose bytes are no
  UTF-8 (a binary file, or a store cut inside a multi-byte character) is not parseable
  as JSON, and reading it is a fault: \<open>f.read()\<close> raises \<open>UnicodeDecodeError\<close>, which is
  no \<open>JSONDecodeError\<close>, so \<open>read_data\<close> and the list route raise the 500 of
  \<open>except Exception\<close>.
\<close>

theorem undecodable_store_is_500:
  "read_data demo_json binary_disk =
     (Inl (HTTPException 500 (Wrapped (ascii ''Failed to read data: '') UnicodeDecodeError)),
      binary_disk)
   \<and> route_get_all_meetings demo_json binary_disk =
     (Inl (HTTPException 500 (Wrapped (ascii ''Failed to read data: '') UnicodeDecodeError)),
      binary_disk)
   \<and> status_code
       (HTTPException 500 (Wrapped (ascii ''Failed to read data: '') UnicodeDecodeError)) = 500"
proof -
  have "read_data demo_json binary_disk =
     (Inl (HTTPException 500 (Wrapped (ascii ''Failed to read data: '') UnicodeDecodeError)),
      binary_disk)"
    by (rule read_data_undecodable) (simp_all add: binary_disk_def)
  then show ?thesis
    by (simp add: route_get_all_meetings_def get_all_meetings_def)
qed

subsection \<open>Listing\<close>

text \<open>
  C8. The list handler returns what \<open>read_data\<close> returns. For a persisted Document (the
  root object \<open>{meetings: [...]}\<close> with a list of records) the route, which passes the
  value through \<open>response_model=MeetingsData\<close>, answers exactly that document; and
  whenever the route answers, the collection it answers is the one that was read, with no
  record dropped, added or moved.
\<close>

theorem list_returns_store_verbatim:
  "get_all_meetings js d = read_data js d
   \<and> (\<forall>doc d1. read_data js d = (Inr doc, d1) \<and> is_document doc \<longrightarrow>
         route_get_all_meetings js d = (Inr doc, d1))
   \<and> (\<forall>out d1. route_get_all_meetings js d = (Inr out, d1) \<longrightarrow>
         (\<exists>doc. read_data js d = (Inr doc, d1) \<and> getitem out k_meetings = getitem doc k_meetings))"
proof (intro conjI allI impI)
  show g: "get_all_meetings js d = read_data js d"
    by (simp add: get_all_meetings_def)
  fix doc d1
  assume "read_data js d = (Inr doc, d1) \<and> is_document doc"
  then show "route_get_all_meetings js d = (Inr doc, d1)"
    by (simp add: route_get_all_meetings_def g is_document_response)
next
  fix out d1
  assume a: "route_get_all_meetings js d = (Inr out, d1)"
  have g: "get_all_meetings js d = read_data js d"
    by (simp add: get_all_meetings_def)
  from a obtain doc where r: "read_data js d = (Inr doc, d1)"
    and v: "response_MeetingsData doc = Inr out"
    by (auto simp: route_get_all_meetings_def g split: prod.splits sum.splits)
  from v have "getitem out k_meetings = getitem doc k_meetings"
    by (cases doc)
       (auto simp: response_MeetingsData_def model_dump_MeetingsData_def
             split: option.splits json.splits if_splits)
  with r show "\<exists>doc. read_data js d = (Inr doc, d1) \<and> getitem out k_meetings = getitem doc k_meetings"
    by blast
qed

theorem list_returns_store_verbatim_witness:
  "is_document (JObj [(k_meetings, JArr example_meetings)])
   \<and> route_get_all_meetings demo_json example_disk =
       (Inr (JObj [(k_meetings, JArr example_meetings)]), example_disk)"
proof -
  have doc: "is_document (JObj [(k_meetings, JArr example_meetings)])"
    by (simp add: example_dicts)
  from list_returns_store_verbatim [of demo_json example_disk]
  have "\<forall>doc d1. read_data demo_json example_disk = (Inr doc, d1) \<and> is_document doc \<longrightarrow>
         route_get_all_meetings demo_json example_disk = (Inr doc, d1)"
    by blast
  with example_read doc show ?thesis
    by blast
qed

subsection \<open>Deleting\<close>

lemma has_id_dict: "has_id meeting_id (JObj kvs) \<longleftrightarrow> map_of kvs k_id = Some (JStr meeting_id)"
  by (simp add: has_id_def split: option.splits)

lemma keep_others_dicts:
  "list_all is_dict xs \<Longrightarrow>
     keep_others meeting_id xs = Inr (filter (\<lambda>m. \<not> has_id meeting_id m) xs)"
proof (induction xs)
  case Nil
  show ?case by simp
next
  case (Cons m xs)
  from Cons.prems obtain kvs where m: "m = JObj kvs"
    by (cases m) simp_all
  from Cons show ?case
    by (simp add: m has_id_def)
qed

lemma filter_length_eq_iff: "length (filter P xs) = length xs \<longleftrightarrow> (\<forall>x\<in>set xs. P x)"
  by (metis filter_True filter_id_conv length_filter_less less_irrefl_nat not_less)

text \<open>
  C4. On a store that holds a collection of records of which at least one carries the path
  identifier, when the file can be opened for writing and \<open>json.dump\<close> writes the new
  document whole, delete succeeds and the file holds the text of the document whose
  collection is the old one without every record that carries the identifier; the
  records that stay keep their order (the new collection is the old one filtered).
\<close>

theorem delete_removes_all_matches:
  assumes "read_data js d = (Inr doc, d1)"
    and "getitem doc k_meetings = Inr (JArr ms)"
    and "list_all is_dict ms"
    and "\<exists>m\<in>set ms. has_id meeting_id m"
    and "write_error d = None"
    and "written_text js
           (store_meetings doc (JArr (filter (\<lambda>m. \<not> has_id meeting_id m) ms))) = Some t"
  shows "delete_meeting js d meeting_id =
     (Inr \<lparr>success = True, message = ascii ''Meeting deleted successfully'', data = None\<rparr>,
      d1\<lparr>data_file := Some (Utf8 t)\<rparr>)
   \<and> getitem (store_meetings doc (JArr (filter (\<lambda>m. \<not> has_id meeting_id m) ms))) k_meetings
       = Inr (JArr (filter (\<lambda>m. \<not> has_id meeting_id m) ms))"
proof -
  let ?kept = "filter (\<lambda>m. \<not> has_id meeting_id m) ms"
  have k: "keep_others meeting_id ms = Inr ?kept"
    using assms(3) by (rule keep_others_dicts)
  have neq: "length ?kept \<noteq> length ms"
    using assms(4) by (auto simp: filter_length_eq_iff)
  have w: "write_error d1 = None"
    using read_data_state(2) [OF assms(1)] assms(5) by simp
  have "delete_meeting js d meeting_id =
     (Inr \<lparr>success = True, message = ascii ''Meeting deleted successfully'', data = None\<rparr>,
      d1\<lparr>data_file := Some (Utf8 t)\<rparr>)"
    by (simp add: delete_meeting_def assms(1,2) k neq write_data_ok [OF w assms(6)])
  then show ?thesis
    using getitem_store_meetings [OF assms(2)] by simp
qed

theorem delete_removes_all_matches_witness:
  "delete_meeting demo_json example_disk (ascii ''x'') =
     (Inr \<lparr>success = True, message = ascii ''Meeting deleted successfully'', data = None\<rparr>,
      example_disk\<lparr>data_file := Some (Utf8 single_text)\<rparr>)"
proof -
  have h2: "getitem (JObj [(k_meetings, JArr example_meetings)]) k_meetings = Inr (JArr example_meetings)"
    by simp
  have h4: "\<exists>m\<in>set example_meetings. has_id (ascii ''x'') m"
    by (simp add: example_meetings_def has_id_dict)
  have h5: "write_error example_disk = None"
    by (simp add: example_disk_def)
  have f: "filter (\<lambda>m. \<not> has_id (ascii ''x'') m) example_meetings = single_meetings"
    by (simp add: example_meetings_def single_meetings_def has_id_dict)
  have s: "written_text demo_json (JObj [(k_meetings, JArr single_meetings)]) = Some single_text"
    unfolding single_text_def by (rule demo_written_text) code_simp
  have h6: "written_text demo_json (store_meetings (JObj [(k_meetings, JArr example_meetings)])
        (JArr (filter (\<lambda>m. \<not> has_id (ascii ''x'') m) example_meetings))) = Some single_text"
    unfolding f using s by simp
  show ?thesis
    using delete_removes_all_matches [OF example_read h2 example_dicts h4 h5 h6]
    by simp
qed

text \<open>
  C5. On a store that holds a collection of records none of which carries the path
  identifier, delete raises the not-found fault (404) and does not write: the state it
  leaves is the one \<open>read_data\<close> left, which is the initial one whenever the file existed,
  and reading again gives the same document.
\<close>

theorem delete_absent_is_not_found:
  assumes "read_data js d = (Inr doc, d1)"
    and "getitem doc k_meetings = Inr (JArr ms)"
    and "list_all is_dict ms"
    and "\<forall>m\<in>set ms. \<not> has_id meeting_id m"
  shows "delete_meeting js d meeting_id = (Inl (not_found meeting_id), d1)
       \<and> status_code (not_found meeting_id) = 404
       \<and> (data_file d \<noteq> None \<longrightarrow> d1 = d)
       \<and> read_data js d1 = (Inr doc, d1)"
proof -
  let ?kept = "filter (\<lambda>m. \<not> has_id meeting_id m) ms"
  have k: "keep_others meeting_id ms = Inr ?kept"
    using assms(3) by (rule keep_others_dicts)
  have eq: "length ?kept = length ms"
    using assms(4) by (simp add: filter_length_eq_iff)
  have "delete_meeting js d meeting_id = (Inl (not_found meeting_id), d1)"
    by (simp add: delete_meeting_def assms(1,2) k eq not_found_def)
  moreover have "status_code (not_found meeting_id) = 404"
    by (simp add: not_found_def)
  ultimately show ?thesis
    using read_data_state(3) [OF assms(1)] read_data_again [OF assms(1)] by simp
qed

theorem delete_absent_is_not_found_witness:
  "delete_meeting demo_json example_disk (ascii ''z'') = (Inl (not_found (ascii ''z'')), example_disk)
   \<and> status_code (not_found (ascii ''z'')) = 404"
proof -
  have h2: "getitem (JObj [(k_meetings, JArr example_meetings)]) k_meetings = Inr (JArr example_meetings)"
    by simp
  have h4: "\<forall>m\<in>set example_meetings. \<not> has_id (ascii ''z'') m"
    by (simp add: example_meetings_def has_id_dict)
  show ?thesis
    using delete_absent_is_not_found [OF example_read h2 example_dicts h4]
    by simp
qed

subsection \<open>Scanning the collection\<close>

lemmas key_defs = k_id_def k_meetings_def k_title_def k_date_def k_time_def
  k_participants_def k_agenda_def k_notes_def

lemma find_meeting_dicts:
  "list_all is_dict xs \<Longrightarrow> find_meeting meeting_id xs = Inr (List.find (has_id meeting_id) xs)"
proof (induction xs)
  case Nil
  show ?case by simp
next
  case (Cons m xs)
  from Cons.prems obtain kvs where m: "m = JObj kvs"
    by (cases m) simp_all
  from Cons show ?case
    by (simp add: m has_id_def)
qed

lemma first_match_split:
  assumes "list_all is_dict pre" and "\<forall>m\<in>set pre. \<not> has_id meeting_id m"
    and "has_id meeting_id m"
  shows "first_match meeting_id (List.enumerate n (pre @ m # post)) =
         Inr (Some (n + length pre, m))"
  using assms(1,2)
proof (induction pre arbitrary: n)
  case Nil
  from assms(3) show ?case
    by (simp add: has_id_def)
next
  case (Cons p pre)
  from Cons.prems obtain kvs where p: "p = JObj kvs"
    by (cases p) simp_all
  from Cons.prems have np: "\<not> has_id meeting_id p" and rest: "list_all is_dict pre"
    "\<forall>m\<in>set pre. \<not> has_id meeting_id m"
    by simp_all
  have "first_match meeting_id (List.enumerate (Suc n) (pre @ m # post)) =
         Inr (Some (Suc n + length pre, m))"
    using rest by (rule Cons.IH)
  with np show ?case
    by (simp add: p has_id_def)
qed

lemma first_match_none:
  assumes "list_all is_dict xs" and "\<forall>m\<in>set xs. \<not> has_id meeting_id m"
  shows "first_match meeting_id (List.enumerate n xs) = Inr None"
  using assms
proof (induction xs arbitrary: n)
  case Nil
  show ?case by simp
next
  case (Cons p xs)
  from Cons.prems obtain kvs where p: "p = JObj kvs"
    by (cases p) simp_all
  from Cons.prems have np: "\<not> has_id meeting_id p" and rest: "list_all is_dict xs"
    "\<forall>m\<in>set xs. \<not> has_id meeting_id m"
    by simp_all
  have "first_match meeting_id (List.enumerate (Suc n) xs) = Inr None"
    using rest by (rule Cons.IH)
  with np show ?case
    by (simp add: p has_id_def)
qed

lemma map_of_dict_update: "map_of (dict_update d other) = map_of d ++ map_of (rev other)"
  unfolding dict_update_def
proof (induction other arbitrary: d)
  case Nil
  show ?case by simp
next
  case (Cons kv other)
  show ?case
    by (simp add: Cons.IH update_conv' map_add_upd_left map_add_def fun_eq_iff split: option.splits)
qed

lemma map_of_filter_key:
  "map_of (filter (\<lambda>kv. Q (fst kv)) xs) k = (if Q k then map_of xs k else None)"
  by (induction xs) auto

lemma distinct_filter_key:
  "distinct (map fst xs) \<Longrightarrow> distinct (map fst (filter P xs))"
  by (induction xs) auto

subsection \<open>Validated requests and their dumps\<close>

lemma map_of_rev_distinct: "distinct (map fst xs) \<Longrightarrow> map_of (rev xs) = map_of xs"
proof (induction xs)
  case Nil
  show ?case by simp
next
  case (Cons kv xs)
  then have "fst kv \<notin> dom (map_of xs)"
    by (simp add: dom_map_of_conv_image_fst)
  then have "map_of xs (fst kv) = None"
    by blast
  with Cons show ?case
    by (cases kv) (auto simp: map_add_def fun_eq_iff split: option.splits)
qed

lemma all_str_items: "all_str xs = Some ss \<Longrightarrow> map JStr ss = xs"
proof (induction xs arbitrary: ss)
  case Nil
  then show ?case by simp
next
  case (Cons x xs)
  then show ?case
    by (cases x) (auto split: option.splits)
qed

lemma optional_str_dump:
  "optional_str (Some v) = Some x \<Longrightarrow> dump_str x = v"
  by (cases v) (auto simp: dump_str_def)

lemma optional_str_list_dump:
  assumes "optional_str_list (Some v) = Some x"
  shows "dump_str_list x = v"
proof (cases v)
  case (JArr xs)
  with assms obtain ss where "all_str xs = Some ss" and "x = Some ss"
    by (auto split: option.splits)
  then show ?thesis
    by (simp add: JArr dump_str_list_def all_str_items)
qed (use assms in \<open>simp_all add: dump_str_list_def\<close>)

lemma required_str_dump: "required_str (Some v) = Some t \<Longrightarrow> JStr t = v"
  by (cases v) simp_all

lemma optional_str_absent: "optional_str None = Some x \<Longrightarrow> dump_str x = JNull"
  by (auto simp: dump_str_def)

lemma optional_str_list_absent: "optional_str_list None = Some x \<Longrightarrow> dump_str_list x = JNull"
  by (auto simp: dump_str_list_def)

lemma in_declared_fields:
  "k \<in> set declared_fields \<longleftrightarrow>
     k = k_title \<or> k = k_date \<or> k = k_time \<or> k = k_participants \<or> k = k_agenda \<or> k = k_notes"
  by (auto simp: declared_fields_def)

lemma k_id_not_declared: "k_id \<notin> set declared_fields"
  by (simp add: declared_fields_def key_defs)

lemma distinct_declared_fields: "distinct declared_fields"
  by (simp add: declared_fields_def key_defs)

lemma map_of_extra_items:
  "map_of (extra_items kvs) k = (if k \<in> set declared_fields then None else map_of kvs k)"
  unfolding extra_items_def
  using map_of_filter_key [where Q = "\<lambda>k. k \<notin> set declared_fields" and xs = kvs and k = k]
  by simp

lemma keys_extra_items: "fst ` set (extra_items kvs) \<inter> set declared_fields = {}"
  by (auto simp: extra_items_def)

lemma in_keys_iff: "k \<in> fst ` set kvs \<longleftrightarrow> map_of kvs k \<noteq> None"
  by (simp add: map_of_eq_None_iff)

lemma map_of_filter_append:
  "map_of (filter (\<lambda>kv. Q (fst kv)) L @ E) k =
     (case (if Q k then map_of L k else None) of None \<Rightarrow> map_of E k | Some v \<Rightarrow> Some v)"
  using map_of_filter_key [where Q = Q and xs = L and k = k]
  by (simp only: map_of_append map_add_def)

lemma map_of_declared_None:
  "k \<notin> set declared_fields \<Longrightarrow>
   map_of [(k_title, a), (k_date, b), (k_time, c), (k_participants, e), (k_agenda, f), (k_notes, g)] k = None"
  by (simp add: in_declared_fields)

lemma validate_MeetingUpdate_Some:
  assumes "validate_MeetingUpdate (JObj kvs) = Some u"
  obtains tt dt tm ps ag nt where
       "optional_str (map_of kvs k_title) = Some tt" "optional_str (map_of kvs k_date) = Some dt"
       "optional_str (map_of kvs k_time) = Some tm"
       "optional_str_list (map_of kvs k_participants) = Some ps"
       "optional_str (map_of kvs k_agenda) = Some ag" "optional_str (map_of kvs k_notes) = Some nt"
       "model_dump_exclude_unset u =
          filter (\<lambda>kv. fst kv \<in> set declared_fields \<and> fst kv \<in> fst ` set kvs)
            [(k_title, dump_str tt), (k_date, dump_str dt), (k_time, dump_str tm),
             (k_participants, dump_str_list ps), (k_agenda, dump_str ag), (k_notes, dump_str nt)]
          @ extra_items kvs"
proof -
  from assms obtain tt dt tm ps ag nt where
    v: "optional_str (map_of kvs k_title) = Some tt" "optional_str (map_of kvs k_date) = Some dt"
       "optional_str (map_of kvs k_time) = Some tm"
       "optional_str_list (map_of kvs k_participants) = Some ps"
       "optional_str (map_of kvs k_agenda) = Some ag" "optional_str (map_of kvs k_notes) = Some nt"
    and u: "u = \<lparr>title = tt, date = dt, time = tm, participants = ps, agenda = ag,
                notes = nt, extra = extra_items kvs,
                fields_set = filter (\<lambda>k. k \<in> fst ` set kvs) declared_fields\<rparr>"
    by (auto simp: bind_eq_Some_conv)
  have "model_dump_exclude_unset u =
          filter (\<lambda>kv. fst kv \<in> set declared_fields \<and> fst kv \<in> fst ` set kvs)
            [(k_title, dump_str tt), (k_date, dump_str dt), (k_time, dump_str tm),
             (k_participants, dump_str_list ps), (k_agenda, dump_str ag), (k_notes, dump_str nt)]
          @ extra_items kvs"
    by (simp add: model_dump_exclude_unset_def u)
  with v show ?thesis
    by (rule that)
qed

text \<open>What \<open>model_dump(exclude_unset=True)\<close> holds, key by key: the request body.\<close>

lemma model_dump_exclude_unset_body:
  assumes "validate_MeetingUpdate (JObj kvs) = Some u"
  shows "map_of (model_dump_exclude_unset u) k = map_of kvs k"
proof -
  from assms obtain tt dt tm ps ag nt where
    v: "optional_str (map_of kvs k_title) = Some tt" "optional_str (map_of kvs k_date) = Some dt"
       "optional_str (map_of kvs k_time) = Some tm"
       "optional_str_list (map_of kvs k_participants) = Some ps"
       "optional_str (map_of kvs k_agenda) = Some ag" "optional_str (map_of kvs k_notes) = Some nt"
    and d: "model_dump_exclude_unset u =
          filter (\<lambda>kv. fst kv \<in> set declared_fields \<and> fst kv \<in> fst ` set kvs)
            [(k_title, dump_str tt), (k_date, dump_str dt), (k_time, dump_str tm),
             (k_participants, dump_str_list ps), (k_agenda, dump_str ag), (k_notes, dump_str nt)]
          @ extra_items kvs"
    by (rule validate_MeetingUpdate_Some)
  let ?L = "[(k_title, dump_str tt), (k_date, dump_str dt), (k_time, dump_str tm),
             (k_participants, dump_str_list ps), (k_agenda, dump_str ag), (k_notes, dump_str nt)]"
  have m: "map_of (model_dump_exclude_unset u) k =
      (case (if k \<in> set declared_fields \<and> k \<in> fst ` set kvs then map_of ?L k else None) of
         None \<Rightarrow> map_of (extra_items kvs) k | Some v \<Rightarrow> Some v)"
    unfolding d
    by (rule map_of_filter_append [where Q = "\<lambda>k. k \<in> set declared_fields \<and> k \<in> fst ` set kvs"])
  show ?thesis
  proof (cases "k \<in> set declared_fields")
    case False
    then show ?thesis
      unfolding m by (simp only: map_of_extra_items if_False simp_thms option.case)
  next
    case decl: True
    show ?thesis
    proof (cases "map_of kvs k")
      case None
      then have "k \<notin> fst ` set kvs"
        by (simp add: map_of_eq_None_iff)
      with decl None show ?thesis
        unfolding m by (simp only: map_of_extra_items if_True if_False simp_thms option.case)
    next
      case (Some w)
      then have present: "k \<in> fst ` set kvs"
        by (metis option.distinct(1) map_of_eq_None_iff)
      from v Some have vals:
        "k = k_title \<Longrightarrow> dump_str tt = w" "k = k_date \<Longrightarrow> dump_str dt = w"
        "k = k_time \<Longrightarrow> dump_str tm = w" "k = k_participants \<Longrightarrow> dump_str_list ps = w"
        "k = k_agenda \<Longrightarrow> dump_str ag = w" "k = k_notes \<Longrightarrow> dump_str nt = w"
        by (simp_all add: optional_str_dump optional_str_list_dump)
      from decl consider "k = k_title" | "k = k_date" | "k = k_time" | "k = k_participants"
        | "k = k_agenda" | "k = k_notes"
        unfolding in_declared_fields by blast
      then have "map_of ?L k = Some w"
      proof cases
        case 1 with vals(1) show ?thesis by simp
      next
        case 2 with vals(2) show ?thesis by (simp add: key_defs)
      next
        case 3 with vals(3) show ?thesis by (simp add: key_defs)
      next
        case 4 with vals(4) show ?thesis by (simp add: key_defs)
      next
        case 5 with vals(5) show ?thesis by (simp add: key_defs)
      next
        case 6 with vals(6) show ?thesis by (simp add: key_defs)
      qed
      with decl present Some show ?thesis
        unfolding m by (simp only: if_True simp_thms option.case)
    qed
  qed
qed

lemma distinct_append_keys:
  assumes "distinct (map fst L)" and "distinct (map fst E)"
    and "fst ` set L \<subseteq> D" and "fst ` set E \<inter> D = {}"
  shows "distinct (map fst (L @ E))"
  using assms by (simp only: map_append distinct_append set_map) blast

lemma distinct_model_dump_exclude_unset:
  assumes "validate_MeetingUpdate (JObj kvs) = Some u" and "distinct (map fst kvs)"
  shows "distinct (map fst (model_dump_exclude_unset u))"
proof -
  from assms(1) obtain tt dt tm ps ag nt where
    d: "model_dump_exclude_unset u =
          filter (\<lambda>kv. fst kv \<in> set declared_fields \<and> fst kv \<in> fst ` set kvs)
            [(k_title, dump_str tt), (k_date, dump_str dt), (k_time, dump_str tm),
             (k_participants, dump_str_list ps), (k_agenda, dump_str ag), (k_notes, dump_str nt)]
          @ extra_items kvs"
    by (rule validate_MeetingUpdate_Some)
  let ?L = "[(k_title, dump_str tt), (k_date, dump_str dt), (k_time, dump_str tm),
             (k_participants, dump_str_list ps), (k_agenda, dump_str ag), (k_notes, dump_str nt)]"
  let ?P = "\<lambda>kv. fst kv \<in> set declared_fields \<and> fst kv \<in> fst ` set kvs"
  have "distinct (map fst ?L)"
    by (simp add: key_defs)
  then have a: "distinct (map fst (filter ?P ?L))"
    by (rule distinct_filter_key)
  have b: "distinct (map fst (extra_items kvs))"
    unfolding extra_items_def using assms(2) by (rule distinct_filter_key)
  have "fst ` set ?L \<subseteq> set declared_fields"
    by (simp add: declared_fields_def)
  moreover have "set (filter ?P ?L) \<subseteq> set ?L"
    by (rule filter_is_subset)
  ultimately have c: "fst ` set (filter ?P ?L) \<subseteq> set declared_fields"
    by blast
  show ?thesis
    unfolding d using a b c keys_extra_items by (rule distinct_append_keys)
qed

lemma validate_MeetingCreate_Some:
  assumes "validate_MeetingCreate (JObj kvs) = Some m"
  obtains t dt tm ps ag nt where
       "required_str (map_of kvs k_title) = Some t" "optional_str (map_of kvs k_date) = Some dt"
       "optional_str (map_of kvs k_time) = Some tm"
       "optional_str_list (map_of kvs k_participants) = Some ps"
       "optional_str (map_of kvs k_agenda) = Some ag" "optional_str (map_of kvs k_notes) = Some nt"
       "model_dump_MeetingCreate m =
          [(k_title, JStr t), (k_date, dump_str dt), (k_time, dump_str tm),
           (k_participants, dump_str_list ps), (k_agenda, dump_str ag), (k_notes, dump_str nt)]
          @ extra_items kvs"
proof -
  from assms obtain t dt tm ps ag nt where
    v: "required_str (map_of kvs k_title) = Some t" "optional_str (map_of kvs k_date) = Some dt"
       "optional_str (map_of kvs k_time) = Some tm"
       "optional_str_list (map_of kvs k_participants) = Some ps"
       "optional_str (map_of kvs k_agenda) = Some ag" "optional_str (map_of kvs k_notes) = Some nt"
    and m: "m = \<lparr>MeetingCreate.title = t, MeetingCreate.date = dt, MeetingCreate.time = tm,
                MeetingCreate.participants = ps, MeetingCreate.agenda = ag,
                MeetingCreate.notes = nt, MeetingCreate.extra = extra_items kvs\<rparr>"
    by (auto simp: bind_eq_Some_conv)
  have "model_dump_MeetingCreate m =
          [(k_title, JStr t), (k_date, dump_str dt), (k_time, dump_str tm),
           (k_participants, dump_str_list ps), (k_agenda, dump_str ag), (k_notes, dump_str nt)]
          @ extra_items kvs"
    by (simp add: model_dump_MeetingCreate_def m)
  with v show ?thesis
    by (rule that)
qed

text \<open>What \<open>model_dump()\<close> of a validated create request holds.\<close>

lemma model_dump_MeetingCreate_body:
  assumes "validate_MeetingCreate (JObj kvs) = Some m" and "map_of kvs k = Some w"
  shows "map_of (model_dump_MeetingCreate m) k = Some w"
proof -
  from assms(1) obtain t dt tm ps ag nt where
    v: "required_str (map_of kvs k_title) = Some t" "optional_str (map_of kvs k_date) = Some dt"
       "optional_str (map_of kvs k_time) = Some tm"
       "optional_str_list (map_of kvs k_participants) = Some ps"
       "optional_str (map_of kvs k_agenda) = Some ag" "optional_str (map_of kvs k_notes) = Some nt"
    and d: "model_dump_MeetingCreate m =
          [(k_title, JStr t), (k_date, dump_str dt), (k_time, dump_str tm),
           (k_participants, dump_str_list ps), (k_agenda, dump_str ag), (k_notes, dump_str nt)]
          @ extra_items kvs"
    by (rule validate_MeetingCreate_Some)
  let ?L = "[(k_title, JStr t), (k_date, dump_str dt), (k_time, dump_str tm),
             (k_participants, dump_str_list ps), (k_agenda, dump_str ag), (k_notes, dump_str nt)]"
  have m: "map_of (model_dump_MeetingCreate m) k =
      (case map_of ?L k of None \<Rightarrow> map_of (extra_items kvs) k | Some v \<Rightarrow> Some v)"
    unfolding d by (simp only: map_of_append map_add_def)
  show ?thesis
  proof (cases "k \<in> set declared_fields")
    case False
    then have "map_of ?L k = None"
      by (rule map_of_declared_None)
    with False assms(2) show ?thesis
      unfolding m by (simp only: map_of_extra_items if_False option.case)
  next
    case True
    from v assms(2) have vals:
      "k = k_title \<Longrightarrow> JStr t = w" "k = k_date \<Longrightarrow> dump_str dt = w"
      "k = k_time \<Longrightarrow> dump_str tm = w" "k = k_participants \<Longrightarrow> dump_str_list ps = w"
      "k = k_agenda \<Longrightarrow> dump_str ag = w" "k = k_notes \<Longrightarrow> dump_str nt = w"
      by (simp_all add: optional_str_dump optional_str_list_dump required_str_dump)
    from True consider "k = k_title" | "k = k_date" | "k = k_time" | "k = k_participants"
      | "k = k_agenda" | "k = k_notes"
      unfolding in_declared_fields by blast
    then have "map_of ?L k = Some w"
    proof cases
      case 1 with vals(1) show ?thesis by simp
    next
      case 2 with vals(2) show ?thesis by (simp add: key_defs)
    next
      case 3 with vals(3) show ?thesis by (simp add: key_defs)
    next
      case 4 with vals(4) show ?thesis by (simp add: key_defs)
    next
      case 5 with vals(5) show ?thesis by (simp add: key_defs)
    next
      case 6 with vals(6) show ?thesis by (simp add: key_defs)
    qed
    then show ?thesis
      unfolding m by (simp only: option.case)
  qed
qed

lemma distinct_model_dump_MeetingCreate:
  assumes "validate_MeetingCreate (JObj kvs) = Some m" and "distinct (map fst kvs)"
  shows "distinct (map fst (model_dump_MeetingCreate m))"
proof -
  from assms(1) obtain t dt tm ps ag nt where
    d: "model_dump_MeetingCreate m =
          [(k_title, JStr t), (k_date, dump_str dt), (k_time, dump_str tm),
           (k_participants, dump_str_list ps), (k_agenda, dump_str ag), (k_notes, dump_str nt)]
          @ extra_items kvs"
    by (rule validate_MeetingCreate_Some)
  let ?L = "[(k_title, JStr t), (k_date, dump_str dt), (k_time, dump_str tm),
             (k_participants, dump_str_list ps), (k_agenda, dump_str ag), (k_notes, dump_str nt)]"
  have a: "distinct (map fst ?L)"
    by (simp add: key_defs)
  have b: "distinct (map fst (extra_items kvs))"
    unfolding extra_items_def using assms(2) by (rule distinct_filter_key)
  have c: "fst ` set ?L \<subseteq> set declared_fields"
    by (simp add: declared_fields_def)
  show ?thesis
    unfolding d using a b c keys_extra_items by (rule distinct_append_keys)
qed

subsection \<open>What the handlers return\<close>

lemma reraise_Inr [simp]: "reraise p (Inr x, d) = (Inr x, d)"
  by simp

lemma reraise_eq_Inr: "reraise p r = (Inr x, d) \<longleftrightarrow> r = (Inr x, d)"
  by (cases "(p, r)" rule: reraise.cases) auto

lemma get_meeting_by_id_dicts:
  assumes "read_data js d = (Inr doc, d1)"
    and "getitem doc k_meetings = Inr (JArr ms)"
    and "list_all is_dict ms"
  shows "get_meeting_by_id js d meeting_id =
     (case List.find (has_id meeting_id) ms of
        Some m \<Rightarrow> (Inr m, d1)
      | None \<Rightarrow> (Inl (not_found meeting_id), d1))"
  by (simp add: get_meeting_by_id_def assms(1,2) find_meeting_dicts [OF assms(3)]
        split: option.splits)

lemma create_meeting_result:
  assumes "read_data js d = (Inr doc, d1)"
    and "getitem doc k_meetings = Inr (JArr ms)"
    and "write_error d = None"
    and "written_text js (store_meetings doc
           (JArr (ms @ [JObj (AList.update k_id (JStr uuid4) (model_dump_MeetingCreate meeting))])))
         = Some t"
  shows "create_meeting js uuid4 d meeting =
     (Inr \<lparr>success = True, message = ascii ''Meeting created successfully'',
           data = Some (JObj (AList.update k_id (JStr uuid4) (model_dump_MeetingCreate meeting)))\<rparr>,
      d1\<lparr>data_file := Some (Utf8 t)\<rparr>)"
proof -
  have w: "write_error d1 = None"
    using read_data_state(2) [OF assms(1)] assms(3) by simp
  show ?thesis
    by (simp add: create_meeting_def Let_def assms(1,2) write_data_ok [OF w assms(4)])
qed

lemma create_meeting_success:
  assumes "create_meeting js uuid4 d meeting = (Inr resp, d2)"
  shows "\<exists>doc d1 ms t. read_data js d = (Inr doc, d1) \<and> getitem doc k_meetings = Inr (JArr ms)
           \<and> write_error d = None
           \<and> written_text js (store_meetings doc
                (JArr (ms @ [JObj (AList.update k_id (JStr uuid4) (model_dump_MeetingCreate meeting))])))
              = Some t"
proof -
  let ?new = "AList.update k_id (JStr uuid4) (model_dump_MeetingCreate meeting)"
  obtain r d1 where rd: "read_data js d = (r, d1)"
    by (cases "read_data js d")
  from assms rd obtain doc where r: "r = Inr doc"
    by (cases r) (auto simp: create_meeting_def reraise_eq_Inr Let_def)
  from assms rd r obtain v where g: "getitem doc k_meetings = Inr v"
    by (cases "getitem doc k_meetings") (auto simp: create_meeting_def reraise_eq_Inr Let_def)
  from assms rd r g obtain ms where v: "v = JArr ms"
    by (cases v) (auto simp: create_meeting_def reraise_eq_Inr Let_def)
  obtain w d2' where wd: "write_data js (store_meetings doc (JArr (ms @ [JObj ?new]))) d1 = (w, d2')"
    by (cases "write_data js (store_meetings doc (JArr (ms @ [JObj ?new]))) d1")
  from assms rd r g v wd obtain b where "w = Inr b"
    by (cases w) (auto simp: create_meeting_def reraise_eq_Inr Let_def)
  with wd have "write_error d1 = None"
    and "\<exists>t. written_text js (store_meetings doc (JArr (ms @ [JObj ?new]))) = Some t"
    using write_data_Inr [of js "store_meetings doc (JArr (ms @ [JObj ?new]))" d1 b d2']
    by auto
  moreover have "write_error d1 = write_error d"
    using rd by (rule read_data_state(2))
  ultimately show ?thesis
    using rd r g v by auto
qed

lemma update_meeting_result:
  assumes "read_data js d = (Inr doc, d1)"
    and "getitem doc k_meetings = Inr (JArr (pre @ JObj old # post))"
    and "list_all is_dict pre" and "\<forall>m\<in>set pre. \<not> has_id meeting_id m"
    and "has_id meeting_id (JObj old)"
    and "write_error d = None"
    and "written_text js (store_meetings doc
           (JArr (pre @ JObj (dict_update old (model_dump_exclude_unset u)) # post))) = Some t"
  shows "update_meeting js d meeting_id u =
     (Inr \<lparr>success = True, message = ascii ''Meeting updated successfully'',
           data = Some (JObj (dict_update old (model_dump_exclude_unset u)))\<rparr>,
      d1\<lparr>data_file := Some (Utf8 t)\<rparr>)"
proof -
  have w: "write_error d1 = None"
    using read_data_state(2) [OF assms(1)] assms(6) by simp
  have f: "first_match meeting_id (List.enumerate 0 (pre @ JObj old # post)) =
        Inr (Some (length pre, JObj old))"
    using first_match_split [OF assms(3,4,5), of 0 post] by simp
  show ?thesis
    by (simp add: update_meeting_def Let_def assms(1,2) f write_data_ok [OF w assms(7)])
qed

lemma save_all_meetings_result:
  assumes "write_error d = None"
    and "written_text js (JObj [(k_meetings, JArr (meetings md))]) = Some t"
  shows "save_all_meetings js d md =
     (Inr \<lparr>success = True, message = ascii ''All meetings data saved successfully'', data = None\<rparr>,
      d\<lparr>data_file := Some (Utf8 t)\<rparr>)"
  using write_data_ok [OF assms]
  by (simp add: save_all_meetings_def hasattr_meetings_def model_dump_MeetingsData_def)

lemma validate_MeetingsData_Some:
  assumes "validate_MeetingsData body = Some md"
  shows "getitem body k_meetings = Inr (JArr (meetings md))" and "list_all is_dict (meetings md)"
  using assms
  by (cases body; auto split: option.splits json.splits if_splits)+

lemma map_of_updated_record:
  assumes "validate_MeetingUpdate (JObj kvs) = Some u" and "distinct (map fst kvs)"
  shows "map_of (dict_update old (model_dump_exclude_unset u)) k =
     (case map_of kvs k of None \<Rightarrow> map_of old k | Some v \<Rightarrow> Some v)"
proof -
  have "map_of (rev (model_dump_exclude_unset u)) = map_of (model_dump_exclude_unset u)"
    using distinct_model_dump_exclude_unset [OF assms] by (rule map_of_rev_distinct)
  then show ?thesis
    by (simp add: map_of_dict_update map_add_def model_dump_exclude_unset_body [OF assms(1)])
qed

subsection \<open>More example stores\<close>

lemma unique_loads:
  "loads demo_json unique_text = Inr (JObj [(k_meetings, JArr unique_meetings)])"
  unfolding demo_json_def unique_text_def unique_meetings_def by code_simp

lemma unique_not_blank: "strip unique_text \<noteq> []"
  unfolding unique_text_def by (rule brace_not_blank)

lemma unique_read:
  "read_data demo_json unique_disk = (Inr (JObj [(k_meetings, JArr unique_meetings)]), unique_disk)"
  using unique_loads unique_not_blank
  by (simp add: read_data_existing unique_disk_def)

lemma single_read:
  "read_data demo_json single_disk = (Inr (JObj [(k_meetings, JArr single_meetings)]), single_disk)"
proof -
  have "loads demo_json single_text = Inr (JObj [(k_meetings, JArr single_meetings)])"
    unfolding demo_json_def single_text_def single_meetings_def by code_simp
  moreover have "strip single_text \<noteq> []"
    unfolding single_text_def by (rule brace_not_blank)
  ultimately show ?thesis
    by (simp add: read_data_existing single_disk_def)
qed

lemma create_body_valid:
  "validate_MeetingCreate (JObj [(k_title, JStr (ascii ''N'')), (k_id, JStr (ascii ''client''))]) =
     Some \<lparr>MeetingCreate.title = ascii ''N'', MeetingCreate.date = None, MeetingCreate.time = None,
           MeetingCreate.participants = None, MeetingCreate.agenda = None,
           MeetingCreate.notes = None,
           MeetingCreate.extra = [(k_id, JStr (ascii ''client''))]\<rparr>"
  by (simp add: key_defs extra_items_def declared_fields_def)

lemma created_record_eq:
  "AList.update k_id (JStr (ascii ''u1''))
     (model_dump_MeetingCreate
        \<lparr>MeetingCreate.title = ascii ''N'', MeetingCreate.date = None, MeetingCreate.time = None,
           MeetingCreate.participants = None, MeetingCreate.agenda = None,
           MeetingCreate.notes = None,
           MeetingCreate.extra = [(k_id, JStr (ascii ''client''))]\<rparr>) = created_record"
  by (simp add: model_dump_MeetingCreate_def created_record_def dump_str_def dump_str_list_def key_defs)

lemma created_reads_back:
  "reads_back demo_json (JObj [(k_meetings, JArr (single_meetings @ [JObj created_record]))])
     created_text"
  unfolding created_text_def
proof (rule demo_reads_back)
  show "show_json (JObj [(k_meetings, JArr (single_meetings @ [JObj created_record]))]) =
      ascii ''{\"meetings\": [{\"id\": \"y\", \"title\": \"T\"}, {\"title\": \"N\", \"date\": null, \"time\": null, \"participants\": null, \"agenda\": null, \"notes\": null, \"id\": \"u1\"}]}''"
    by code_simp
  show "strip (ascii
      ''{\"meetings\": [{\"id\": \"y\", \"title\": \"T\"}, {\"title\": \"N\", \"date\": null, \"time\": null, \"participants\": null, \"agenda\": null, \"notes\": null, \"id\": \"u1\"}]}'') \<noteq> []"
    by (rule brace_not_blank)
  show "loads demo_json (ascii
      ''{\"meetings\": [{\"id\": \"y\", \"title\": \"T\"}, {\"title\": \"N\", \"date\": null, \"time\": null, \"participants\": null, \"agenda\": null, \"notes\": null, \"id\": \"u1\"}]}'') =
      Inr (JObj [(k_meetings, JArr (single_meetings @ [JObj created_record]))])"
    unfolding demo_json_def by code_simp
qed

lemma unique_split:
  "getitem (JObj [(k_meetings, JArr unique_meetings)]) k_meetings =
     Inr (JArr ([] @ JObj [(k_id, JStr (ascii ''x'')), (k_title, JStr (ascii ''A'')),
                           (k_agenda, JStr (ascii ''B''))]
                  # [JObj [(k_id, JStr (ascii ''y'')), (k_title, JStr (ascii ''T''))]]))"
  by (simp add: unique_meetings_def)

lemma unique_first: "has_id (ascii ''x'')
    (JObj [(k_id, JStr (ascii ''x'')), (k_title, JStr (ascii ''A'')), (k_agenda, JStr (ascii ''B''))])"
  by (simp add: has_id_dict)

lemma unique_writable: "write_error unique_disk = None"
  by (simp add: unique_disk_def)

lemma single_create:
  "route_create_meeting demo_json (ascii ''u1'') single_disk create_body =
     (Inr \<lparr>success = True, message = ascii ''Meeting created successfully'',
           data = Some (JObj created_record)\<rparr>,
      single_disk\<lparr>data_file := Some (Utf8 created_text)\<rparr>)"
proof -
  have g: "getitem (JObj [(k_meetings, JArr single_meetings)]) k_meetings = Inr (JArr single_meetings)"
    by simp
  have w: "write_error single_disk = None"
    by (simp add: single_disk_def)
  have t: "written_text demo_json (store_meetings (JObj [(k_meetings, JArr single_meetings)])
      (JArr (single_meetings @ [JObj (AList.update k_id (JStr (ascii ''u1''))
         (model_dump_MeetingCreate
            \<lparr>MeetingCreate.title = ascii ''N'', MeetingCreate.date = None, MeetingCreate.time = None,
              MeetingCreate.participants = None, MeetingCreate.agenda = None,
              MeetingCreate.notes = None,
              MeetingCreate.extra = [(k_id, JStr (ascii ''client''))]\<rparr>))]))) = Some created_text"
    unfolding created_record_eq using created_reads_back by (simp add: reads_back_def)
  show ?thesis
    unfolding route_create_meeting_def create_body_def create_body_valid option.case
      create_meeting_result [OF single_read g w t] created_record_eq
    by simp
qed

text \<open>
  A create request whose body holds a lone surrogate, here under the extra key \<open>x\<close>, is
  valid, and its write fails: the answer is a 500 and the file, emptied by \<open>open\<close>, has
  lost the store.
\<close>

lemma surrogate_create_fails:
  "route_create_meeting demo_json (ascii ''u1'') single_disk surrogate_body =
     (Inl (HTTPException 500 (Wrapped (ascii ''Failed to write data: '') UnicodeEncodeError)),
      single_disk\<lparr>data_file := Some (Utf8 [])\<rparr>)
   \<and> read_data demo_json (single_disk\<lparr>data_file := Some (Utf8 [])\<rparr>) =
     (Inr empty_document, single_disk\<lparr>data_file := Some (Utf8 [])\<rparr>)"
proof -
  let ?m = "\<lparr>MeetingCreate.title = ascii ''t'', MeetingCreate.date = None, MeetingCreate.time = None,
           MeetingCreate.participants = None, MeetingCreate.agenda = None,
           MeetingCreate.notes = None,
           MeetingCreate.extra = [(ascii ''x'', JStr [55296])]\<rparr>"
  let ?new = "[(k_title, JStr (ascii ''t'')), (k_date, JNull), (k_time, JNull),
      (k_participants, JNull), (k_agenda, JNull), (k_notes, JNull), (ascii ''x'', JStr [55296]),
      (k_id, JStr (ascii ''u1''))]"
  have v: "validate_MeetingCreate surrogate_body = Some ?m"
    by (simp add: surrogate_body_def key_defs extra_items_def declared_fields_def)
  have n: "AList.update k_id (JStr (ascii ''u1'')) (model_dump_MeetingCreate ?m) = ?new"
    by (simp add: model_dump_MeetingCreate_def dump_str_def dump_str_list_def key_defs)
  have "\<not> encodable 55296"
    by (simp add: encodable_def)
  moreover have "55296 \<in> set (show_json (JObj [(k_meetings, JArr (single_meetings @ [JObj ?new]))]))"
    by (simp add: single_meetings_def quoted_def)
  ultimately have e: "\<not> list_all encodable
      (show_json (JObj [(k_meetings, JArr (single_meetings @ [JObj ?new]))]))"
    unfolding list_all_iff by blast
  have w: "write_data demo_json (JObj [(k_meetings, JArr (single_meetings @ [JObj ?new]))]) single_disk =
     (Inl (HTTPException 500 (Wrapped (ascii ''Failed to write data: '') UnicodeEncodeError)),
      single_disk\<lparr>data_file := Some (Utf8 [])\<rparr>)"
    using e
    by (simp add: write_data_def write_file_def demo_json_def demo_dump_def single_disk_def)
  have c: "route_create_meeting demo_json (ascii ''u1'') single_disk surrogate_body =
     (Inl (HTTPException 500 (Wrapped (ascii ''Failed to write data: '') UnicodeEncodeError)),
      single_disk\<lparr>data_file := Some (Utf8 [])\<rparr>)"
    unfolding route_create_meeting_def v option.case
    by (simp add: create_meeting_def Let_def single_read n w)
  have r: "read_data demo_json (single_disk\<lparr>data_file := Some (Utf8 [])\<rparr>) =
     (Inr empty_document, single_disk\<lparr>data_file := Some (Utf8 [])\<rparr>)"
    by (simp add: read_data_existing single_disk_def strip_def)
  from c r show ?thesis
    by simp
qed

subsection \<open>Creating, updating and replacing\<close>

lemma find_append_None: "List.find P xs = None \<Longrightarrow> List.find P (xs @ ys) = List.find P ys"
  by (induction xs) (auto split: if_splits)

text \<open>
  C1. Round trip. On a store that holds a collection of records none of which carries the
  identifier the server draws, when the file can be opened for writing and the \<open>json\<close>
  module writes the new document whole and reads it back, every valid create request
  succeeds, the record of its success envelope carries the drawn identifier, fetching by
  that identifier returns exactly that record, and the record has every field of the
  request body (but \<open>id\<close>) with the value of the request.
\<close>

theorem create_then_get_round_trip:
  fixes uuid4 :: str and meeting :: MeetingCreate and js :: json_module and doc :: json
    and ms :: "json list" and d1 :: disk and t :: str and created d2
  defines "created \<equiv> AList.update k_id (JStr uuid4) (model_dump_MeetingCreate meeting)"
    and "d2 \<equiv> d1\<lparr>data_file := Some (Utf8 t)\<rparr>"
  assumes "validate_MeetingCreate (JObj kvs) = Some meeting"
    and "read_data js d = (Inr doc, d1)"
    and "getitem doc k_meetings = Inr (JArr ms)"
    and "list_all is_dict ms"
    and "\<forall>m\<in>set ms. \<not> has_id uuid4 m"
    and "write_error d = None"
    and "reads_back js (store_meetings doc
           (JArr (ms @ [JObj (AList.update k_id (JStr uuid4) (model_dump_MeetingCreate meeting))])))
           t"
  shows "route_create_meeting js uuid4 d (JObj kvs) =
         (Inr \<lparr>success = True, message = ascii ''Meeting created successfully'',
               data = Some (JObj created)\<rparr>, d2)
     \<and> map_of created k_id = Some (JStr uuid4)
     \<and> get_meeting_by_id js d2 uuid4 = (Inr (JObj created), d2)
     \<and> (\<forall>k v. k \<noteq> k_id \<and> map_of kvs k = Some v \<longrightarrow> map_of created k = Some v)"
proof -
  let ?doc2 = "store_meetings doc (JArr (ms @ [JObj created]))"
  have rb: "reads_back js ?doc2 t"
    using assms(9) by (simp only: created_def)
  then have wt: "written_text js (store_meetings doc
      (JArr (ms @ [JObj (AList.update k_id (JStr uuid4) (model_dump_MeetingCreate meeting))])))
      = Some t"
    by (simp add: reads_back_def created_def)
  have c: "route_create_meeting js uuid4 d (JObj kvs) =
         (Inr \<lparr>success = True, message = ascii ''Meeting created successfully'',
               data = Some (JObj created)\<rparr>, d2)"
    unfolding route_create_meeting_def assms(3) option.case d2_def created_def
    by (rule create_meeting_result [OF assms(4,5,8) wt])
  have i: "map_of created k_id = Some (JStr uuid4)"
    by (simp add: created_def update_conv')
  have r: "read_data js d2 = (Inr ?doc2, d2)"
    unfolding d2_def using rb read_data_ok(1) [OF assms(4)] by (rule read_after_write)
  have g: "getitem ?doc2 k_meetings = Inr (JArr (ms @ [JObj created]))"
    using assms(5) by (rule getitem_store_meetings)
  have dicts: "list_all is_dict (ms @ [JObj created])"
    using assms(6) by simp
  have "List.find (has_id uuid4) ms = None"
    using assms(7) by (simp add: find_None_iff)
  moreover have "has_id uuid4 (JObj created)"
    using i by (simp only: has_id_dict)
  ultimately have f: "List.find (has_id uuid4) (ms @ [JObj created]) = Some (JObj created)"
    by (simp add: find_append_None)
  have get: "get_meeting_by_id js d2 uuid4 = (Inr (JObj created), d2)"
    using get_meeting_by_id_dicts [OF r g dicts, of uuid4] by (simp add: f)
  have fields: "\<forall>k v. k \<noteq> k_id \<and> map_of kvs k = Some v \<longrightarrow> map_of created k = Some v"
    using model_dump_MeetingCreate_body [OF assms(3)] by (simp add: created_def update_conv')
  from c i get fields show ?thesis
    by blast
qed

theorem create_then_get_round_trip_witness:
  "route_create_meeting demo_json (ascii ''u1'') single_disk create_body =
     (Inr \<lparr>success = True, message = ascii ''Meeting created successfully'',
           data = Some (JObj created_record)\<rparr>,
      single_disk\<lparr>data_file := Some (Utf8 created_text)\<rparr>)
   \<and> get_meeting_by_id demo_json (single_disk\<lparr>data_file := Some (Utf8 created_text)\<rparr>) (ascii ''u1'') =
       (Inr (JObj created_record), single_disk\<lparr>data_file := Some (Utf8 created_text)\<rparr>)
   \<and> map_of created_record k_title = Some (JStr (ascii ''N''))"
proof -
  have h3: "getitem (JObj [(k_meetings, JArr single_meetings)]) k_meetings = Inr (JArr single_meetings)"
    by simp
  have h4: "list_all is_dict single_meetings"
    by (simp add: single_meetings_def)
  have h5: "\<forall>m\<in>set single_meetings. \<not> has_id (ascii ''u1'') m"
    by (simp add: single_meetings_def has_id_dict)
  have h6: "write_error single_disk = None"
    by (simp add: single_disk_def)
  have h7: "reads_back demo_json (store_meetings (JObj [(k_meetings, JArr single_meetings)])
      (JArr (single_meetings @ [JObj (AList.update k_id (JStr (ascii ''u1''))
         (model_dump_MeetingCreate
            \<lparr>MeetingCreate.title = ascii ''N'', MeetingCreate.date = None, MeetingCreate.time = None,
              MeetingCreate.participants = None, MeetingCreate.agenda = None,
              MeetingCreate.notes = None,
              MeetingCreate.extra = [(k_id, JStr (ascii ''client''))]\<rparr>))]))) created_text"
    unfolding created_record_eq using created_reads_back by simp
  have t: "map_of [(k_title, JStr (ascii ''N'')), (k_id, JStr (ascii ''client''))] k_title
      = Some (JStr (ascii ''N''))"
    by simp
  have n: "k_title \<noteq> k_id"
    by (simp add: key_defs)
  show ?thesis
    using create_then_get_round_trip [OF create_body_valid single_read h3 h4 h5 h6 h7] t n
    unfolding created_record_eq
    by (simp add: create_body_def)
qed

text \<open>
  C9. Whenever a create request succeeds, whatever its body holds, the file holds the
  text of a document written whole, the record appended to its collection is the one of
  the success envelope, and its \<open>id\<close> is the identifier the server drew; a
  client-supplied \<open>id\<close> is overwritten: the record has no other \<open>id\<close> entry.
\<close>

theorem create_assigns_server_id:
  assumes "route_create_meeting js uuid4 d body = (Inr resp, d2)"
  shows "\<exists>doc ms created t.
       written_text js doc = Some t \<and> data_file d2 = Some (Utf8 t)
     \<and> getitem doc k_meetings = Inr (JArr (ms @ [JObj created]))
     \<and> data resp = Some (JObj created)
     \<and> map_of created k_id = Some (JStr uuid4)
     \<and> (\<forall>kvs v. body = JObj kvs \<and> distinct (map fst kvs) \<and> (k_id, v) \<in> set created
            \<longrightarrow> v = JStr uuid4)"
proof -
  from assms obtain meeting where v: "validate_MeetingCreate body = Some meeting"
    and c: "create_meeting js uuid4 d meeting = (Inr resp, d2)"
    by (cases "validate_MeetingCreate body") (auto simp: route_create_meeting_def)
  let ?created = "AList.update k_id (JStr uuid4) (model_dump_MeetingCreate meeting)"
  from create_meeting_success [OF c] obtain doc d1 ms t where
    r: "read_data js d = (Inr doc, d1)" and g: "getitem doc k_meetings = Inr (JArr ms)"
    and w: "write_error d = None"
    and wt: "written_text js (store_meetings doc (JArr (ms @ [JObj ?created]))) = Some t"
    by blast
  let ?doc2 = "store_meetings doc (JArr (ms @ [JObj ?created]))"
  from c create_meeting_result [OF r g w wt]
  have resp: "data resp = Some (JObj ?created)"
    and d2: "data_file d2 = Some (Utf8 t)"
    by auto
  have g2: "getitem ?doc2 k_meetings = Inr (JArr (ms @ [JObj ?created]))"
    using g by (rule getitem_store_meetings)
  have i: "map_of ?created k_id = Some (JStr uuid4)"
    by (simp add: update_conv')
  have only: "\<forall>kvs v. body = JObj kvs \<and> distinct (map fst kvs) \<and> (k_id, v) \<in> set ?created
            \<longrightarrow> v = JStr uuid4"
  proof (intro allI impI)
    fix kvs v
    assume a: "body = JObj kvs \<and> distinct (map fst kvs) \<and> (k_id, v) \<in> set ?created"
    with v have "distinct (map fst (model_dump_MeetingCreate meeting))"
      by (simp add: distinct_model_dump_MeetingCreate)
    then have "distinct (map fst ?created)"
      by (rule distinct_update)
    with a have "map_of ?created k_id = Some v"
      by simp
    with i show "v = JStr uuid4"
      by simp
  qed
  from wt d2 g2 resp i only show ?thesis
    by blast
qed

theorem create_assigns_server_id_witness:
  "route_create_meeting demo_json (ascii ''u1'') single_disk create_body =
     (Inr \<lparr>success = True, message = ascii ''Meeting created successfully'',
           data = Some (JObj created_record)\<rparr>,
      single_disk\<lparr>data_file := Some (Utf8 created_text)\<rparr>)
   \<and> map_of created_record k_id = Some (JStr (ascii ''u1''))
   \<and> (k_id, JStr (ascii ''client'')) \<notin> set created_record"
proof -
  from create_assigns_server_id [OF single_create] obtain doc ms created t where
    r: "data \<lparr>success = True, message = ascii ''Meeting created successfully'',
           data = Some (JObj created_record)\<rparr> = Some (JObj created)"
    and i: "map_of created k_id = Some (JStr (ascii ''u1''))"
    and only: "\<forall>kvs v. create_body = JObj kvs \<and> distinct (map fst kvs) \<and> (k_id, v) \<in> set created
            \<longrightarrow> v = JStr (ascii ''u1'')"
    by blast
  from r have c: "created = created_record"
    by simp
  have "distinct (map fst [(k_title, JStr (ascii ''N'')), (k_id, JStr (ascii ''client''))])"
    by (simp add: key_defs)
  with only have "\<forall>v. (k_id, v) \<in> set created \<longrightarrow> v = JStr (ascii ''u1'')"
    unfolding create_body_def by blast
  then have "(k_id, JStr (ascii ''client'')) \<notin> set created"
    by auto
  with i c single_create show ?thesis
    by simp
qed

text \<open>
  C2. Partial update. When the first record of the collection that carries the path
  identifier is \<open>old\<close>, the file can be opened for writing and \<open>json.dump\<close> writes the new
  document whole, an update request succeeds, replaces that record alone and writes the
  collection; in the new record every key absent from the request body keeps the value
  it had, and every key of the body has the value of the body.
\<close>

theorem update_merges_only_supplied_keys:
  fixes old :: "(str \<times> json) list" and u :: MeetingUpdate and new
  defines "new \<equiv> dict_update old (model_dump_exclude_unset u)"
  assumes "validate_MeetingUpdate (JObj kvs) = Some u" and "distinct (map fst kvs)"
    and "read_data js d = (Inr doc, d1)"
    and "getitem doc k_meetings = Inr (JArr (pre @ JObj old # post))"
    and "list_all is_dict pre" and "\<forall>m\<in>set pre. \<not> has_id meeting_id m"
    and "has_id meeting_id (JObj old)"
    and "write_error d = None"
    and "written_text js (store_meetings doc
           (JArr (pre @ JObj (dict_update old (model_dump_exclude_unset u)) # post))) = Some t"
  shows "route_update_meeting js d meeting_id (JObj kvs) =
         (Inr \<lparr>success = True, message = ascii ''Meeting updated successfully'',
               data = Some (JObj new)\<rparr>,
          d1\<lparr>data_file := Some (Utf8 t)\<rparr>)
     \<and> (\<forall>k. k \<notin> fst ` set kvs \<longrightarrow> map_of new k = map_of old k)
     \<and> (\<forall>k v. map_of kvs k = Some v \<longrightarrow> map_of new k = Some v)"
proof -
  have r: "route_update_meeting js d meeting_id (JObj kvs) =
         (Inr \<lparr>success = True, message = ascii ''Meeting updated successfully'',
               data = Some (JObj new)\<rparr>,
          d1\<lparr>data_file := Some (Utf8 t)\<rparr>)"
    unfolding route_update_meeting_def assms(2) option.case new_def
    by (rule update_meeting_result [OF assms(4-10)])
  have m: "\<And>k. map_of new k = (case map_of kvs k of None \<Rightarrow> map_of old k | Some v \<Rightarrow> Some v)"
    unfolding new_def using assms(2,3) by (rule map_of_updated_record)
  have untouched: "\<forall>k. k \<notin> fst ` set kvs \<longrightarrow> map_of new k = map_of old k"
    by (simp add: m map_of_eq_None_iff [symmetric])
  have merged: "\<forall>k v. map_of kvs k = Some v \<longrightarrow> map_of new k = Some v"
    by (simp add: m)
  from r untouched merged show ?thesis
    by blast
qed

theorem update_merges_only_supplied_keys_witness:
  "route_update_meeting demo_json unique_disk (ascii ''x'') (JObj [(k_title, JStr (ascii ''C''))]) =
     (Inr \<lparr>success = True, message = ascii ''Meeting updated successfully'',
           data = Some (JObj [(k_id, JStr (ascii ''x'')), (k_title, JStr (ascii ''C'')),
                              (k_agenda, JStr (ascii ''B''))])\<rparr>,
      unique_disk\<lparr>data_file := Some (Utf8 updated_text)\<rparr>)"
proof -
  let ?u = "\<lparr>title = Some (ascii ''C''), date = None, time = None, participants = None,
             agenda = None, notes = None, extra = [], fields_set = [k_title]\<rparr>"
  have v: "validate_MeetingUpdate (JObj [(k_title, JStr (ascii ''C''))]) = Some ?u"
    by (simp add: key_defs extra_items_def declared_fields_def)
  have dk: "distinct (map fst [(k_title, JStr (ascii ''C''))])"
    by simp
  have e: "list_all is_dict []" "\<forall>m\<in>set []. \<not> has_id (ascii ''x'') m"
    by simp_all
  have n: "dict_update [(k_id, JStr (ascii ''x'')), (k_title, JStr (ascii ''A'')),
                        (k_agenda, JStr (ascii ''B''))] (model_dump_exclude_unset ?u) =
      [(k_id, JStr (ascii ''x'')), (k_title, JStr (ascii ''C'')), (k_agenda, JStr (ascii ''B''))]"
    by (simp add: dict_update_def model_dump_exclude_unset_def dump_str_def dump_str_list_def key_defs)
  have t: "written_text demo_json (JObj [(k_meetings, JArr
       [JObj [(k_id, JStr (ascii ''x'')), (k_title, JStr (ascii ''C'')), (k_agenda, JStr (ascii ''B''))],
        JObj [(k_id, JStr (ascii ''y'')), (k_title, JStr (ascii ''T''))]])]) = Some updated_text"
    unfolding updated_text_def by (rule demo_written_text) code_simp
  have w: "written_text demo_json (store_meetings (JObj [(k_meetings, JArr unique_meetings)])
      (JArr ([] @ JObj (dict_update [(k_id, JStr (ascii ''x'')), (k_title, JStr (ascii ''A'')),
                        (k_agenda, JStr (ascii ''B''))] (model_dump_exclude_unset ?u))
                # [JObj [(k_id, JStr (ascii ''y'')), (k_title, JStr (ascii ''T''))]]))) = Some updated_text"
    unfolding n using t by simp
  show ?thesis
    using update_merges_only_supplied_keys
      [OF v dk unique_read unique_split e unique_first unique_writable w]
    unfolding n by simp
qed

text \<open>
  C10. The update merge applies an \<open>id\<close> key of the request body like any other key: after
  an update that is written, the stored record carries the client-supplied value as its
  \<open>id\<close>, and when that value differs from the path identifier the record no longer
  carries the identifier it was found by.
\<close>

theorem update_can_change_id:
  fixes old :: "(str \<times> json) list" and u :: MeetingUpdate and new
  defines "new \<equiv> dict_update old (model_dump_exclude_unset u)"
  assumes "validate_MeetingUpdate (JObj kvs) = Some u" and "distinct (map fst kvs)"
    and "map_of kvs k_id = Some v"
    and "read_data js d = (Inr doc, d1)"
    and "getitem doc k_meetings = Inr (JArr (pre @ JObj old # post))"
    and "list_all is_dict pre" and "\<forall>m\<in>set pre. \<not> has_id meeting_id m"
    and "has_id meeting_id (JObj old)"
    and "write_error d = None"
    and "written_text js (store_meetings doc
           (JArr (pre @ JObj (dict_update old (model_dump_exclude_unset u)) # post))) = Some t"
  shows "route_update_meeting js d meeting_id (JObj kvs) =
         (Inr \<lparr>success = True, message = ascii ''Meeting updated successfully'',
               data = Some (JObj new)\<rparr>,
          d1\<lparr>data_file := Some (Utf8 t)\<rparr>)
     \<and> map_of new k_id = Some v
     \<and> (v \<noteq> JStr meeting_id \<longrightarrow> \<not> has_id meeting_id (JObj new))"
proof -
  have r: "route_update_meeting js d meeting_id (JObj kvs) =
         (Inr \<lparr>success = True, message = ascii ''Meeting updated successfully'',
               data = Some (JObj new)\<rparr>,
          d1\<lparr>data_file := Some (Utf8 t)\<rparr>)"
    unfolding route_update_meeting_def assms(2) option.case new_def
    by (rule update_meeting_result [OF assms(5-11)])
  have i: "map_of new k_id = Some v"
    unfolding new_def using map_of_updated_record [OF assms(2,3), of old k_id]
    by (simp add: assms(4))
  then have "v \<noteq> JStr meeting_id \<longrightarrow> \<not> has_id meeting_id (JObj new)"
    by (simp add: has_id_dict)
  with r i show ?thesis
    by blast
qed

theorem update_can_change_id_witness:
  "route_update_meeting demo_json unique_disk (ascii ''x'') (JObj [(k_id, JStr (ascii ''y''))]) =
     (Inr \<lparr>success = True, message = ascii ''Meeting updated successfully'',
           data = Some (JObj [(k_id, JStr (ascii ''y'')), (k_title, JStr (ascii ''A'')),
                              (k_agenda, JStr (ascii ''B''))])\<rparr>,
      unique_disk\<lparr>data_file := Some (Utf8 clashing_text)\<rparr>)
   \<and> \<not> has_id (ascii ''x'')
        (JObj [(k_id, JStr (ascii ''y'')), (k_title, JStr (ascii ''A'')), (k_agenda, JStr (ascii ''B''))])
   \<and> has_id (ascii ''y'')
        (JObj [(k_id, JStr (ascii ''y'')), (k_title, JStr (ascii ''A'')), (k_agenda, JStr (ascii ''B''))])
   \<and> has_id (ascii ''y'') (JObj [(k_id, JStr (ascii ''y'')), (k_title, JStr (ascii ''T''))])"
proof -
  let ?u = "\<lparr>title = None, date = None, time = None, participants = None,
             agenda = None, notes = None, extra = [(k_id, JStr (ascii ''y''))], fields_set = []\<rparr>"
  have v: "validate_MeetingUpdate (JObj [(k_id, JStr (ascii ''y''))]) = Some ?u"
    by (simp add: key_defs extra_items_def declared_fields_def)
  have dk: "distinct (map fst [(k_id, JStr (ascii ''y''))])"
    by simp
  have ik: "map_of [(k_id, JStr (ascii ''y''))] k_id = Some (JStr (ascii ''y''))"
    by simp
  have e: "list_all is_dict []" "\<forall>m\<in>set []. \<not> has_id (ascii ''x'') m"
    by simp_all
  have n: "dict_update [(k_id, JStr (ascii ''x'')), (k_title, JStr (ascii ''A'')),
                        (k_agenda, JStr (ascii ''B''))] (model_dump_exclude_unset ?u) =
      [(k_id, JStr (ascii ''y'')), (k_title, JStr (ascii ''A'')), (k_agenda, JStr (ascii ''B''))]"
    by (simp add: dict_update_def model_dump_exclude_unset_def dump_str_def dump_str_list_def key_defs)
  have t: "written_text demo_json (JObj [(k_meetings, JArr
       [JObj [(k_id, JStr (ascii ''y'')), (k_title, JStr (ascii ''A'')), (k_agenda, JStr (ascii ''B''))],
        JObj [(k_id, JStr (ascii ''y'')), (k_title, JStr (ascii ''T''))]])]) = Some clashing_text"
    unfolding clashing_text_def by (rule demo_written_text) code_simp
  have w: "written_text demo_json (store_meetings (JObj [(k_meetings, JArr unique_meetings)])
      (JArr ([] @ JObj (dict_update [(k_id, JStr (ascii ''x'')), (k_title, JStr (ascii ''A'')),
                        (k_agenda, JStr (ascii ''B''))] (model_dump_exclude_unset ?u))
                # [JObj [(k_id, JStr (ascii ''y'')), (k_title, JStr (ascii ''T''))]]))) = Some clashing_text"
    unfolding n using t by simp
  have x: "ascii ''y'' \<noteq> ascii ''x''"
    by simp
  show ?thesis
    using update_can_change_id
      [OF v dk ik unique_read unique_split e unique_first unique_writable w]
    unfolding n by (simp add: x has_id_dict)
qed

text \<open>
  C3. Bulk replace. Whatever the store held, a bulk request whose body validates as
  \<open>{meetings: [...]}\<close> succeeds when the file can be opened for writing and the \<open>json\<close>
  module writes the supplied document whole; when the module also reads it back, the
  store then reads as exactly the supplied records, and fetching any identifier that no
  supplied record carries raises the not-found fault.
\<close>

theorem bulk_replace_overwrites:
  fixes js :: json_module and d :: disk and md :: MeetingsData and t :: str and d2
  defines "d2 \<equiv> d\<lparr>data_file := Some (Utf8 t)\<rparr>"
  assumes "validate_MeetingsData body = Some md"
    and "write_error d = None" and "read_error d = None"
    and "reads_back js (JObj [(k_meetings, JArr (meetings md))]) t"
  shows "route_save_all_meetings js d body =
         (Inr \<lparr>success = True, message = ascii ''All meetings data saved successfully'',
               data = None\<rparr>, d2)
     \<and> getitem body k_meetings = Inr (JArr (meetings md))
     \<and> read_data js d2 = (Inr (JObj [(k_meetings, JArr (meetings md))]), d2)
     \<and> (\<forall>meeting_id. (\<forall>m\<in>set (meetings md). \<not> has_id meeting_id m) \<longrightarrow>
            get_meeting_by_id js d2 meeting_id = (Inl (not_found meeting_id), d2))"
proof -
  let ?doc = "JObj [(k_meetings, JArr (meetings md))]"
  have wt: "written_text js ?doc = Some t"
    using assms(5) by (simp add: reads_back_def)
  have s: "route_save_all_meetings js d body =
         (Inr \<lparr>success = True, message = ascii ''All meetings data saved successfully'',
               data = None\<rparr>, d2)"
    unfolding route_save_all_meetings_def assms(2) option.case d2_def
    by (rule save_all_meetings_result [OF assms(3) wt])
  have r: "read_data js d2 = (Inr ?doc, d2)"
    unfolding d2_def using assms(5,4) by (rule read_after_write)
  have g: "getitem ?doc k_meetings = Inr (JArr (meetings md))"
    by simp
  have gone: "\<forall>meeting_id. (\<forall>m\<in>set (meetings md). \<not> has_id meeting_id m) \<longrightarrow>
            get_meeting_by_id js d2 meeting_id = (Inl (not_found meeting_id), d2)"
  proof (intro allI impI)
    fix meeting_id
    assume "\<forall>m\<in>set (meetings md). \<not> has_id meeting_id m"
    then have "List.find (has_id meeting_id) (meetings md) = None"
      by (simp add: find_None_iff)
    then show "get_meeting_by_id js d2 meeting_id = (Inl (not_found meeting_id), d2)"
      using get_meeting_by_id_dicts [OF r g validate_MeetingsData_Some(2) [OF assms(2)], of meeting_id]
      by simp
  qed
  from s validate_MeetingsData_Some(1) [OF assms(2)] r gone show ?thesis
    by blast
qed

theorem bulk_replace_overwrites_witness:
  "route_save_all_meetings demo_json example_disk bulk_body =
     (Inr \<lparr>success = True, message = ascii ''All meetings data saved successfully'', data = None\<rparr>,
      example_disk\<lparr>data_file := Some (Utf8 bulk_text)\<rparr>)
   \<and> read_data demo_json (example_disk\<lparr>data_file := Some (Utf8 bulk_text)\<rparr>) =
       (Inr bulk_body, example_disk\<lparr>data_file := Some (Utf8 bulk_text)\<rparr>)
   \<and> get_meeting_by_id demo_json (example_disk\<lparr>data_file := Some (Utf8 bulk_text)\<rparr>) (ascii ''x'') =
       (Inl (not_found (ascii ''x'')), example_disk\<lparr>data_file := Some (Utf8 bulk_text)\<rparr>)
   \<and> get_meeting_by_id demo_json example_disk (ascii ''x'') =
       (Inr (JObj [(k_id, JStr (ascii ''x'')), (k_title, JStr (ascii ''A'')),
                   (k_agenda, JStr (ascii ''B''))]), example_disk)"
proof -
  let ?md = "\<lparr>meetings = [JObj [(k_id, JStr (ascii ''c'')), (k_title, JStr (ascii ''C''))]]\<rparr>"
  have v: "validate_MeetingsData bulk_body = Some ?md"
    by (simp add: bulk_body_def)
  have w: "write_error example_disk = None" and r: "read_error example_disk = None"
    by (simp_all add: example_disk_def)
  have b: "reads_back demo_json (JObj [(k_meetings, JArr (meetings ?md))]) bulk_text"
    unfolding bulk_text_def
  proof (rule demo_reads_back)
    show "show_json (JObj [(k_meetings, JArr (meetings ?md))]) =
        ascii ''{\"meetings\": [{\"id\": \"c\", \"title\": \"C\"}]}''"
      by code_simp
    show "strip (ascii ''{\"meetings\": [{\"id\": \"c\", \"title\": \"C\"}]}'') \<noteq> []"
      by (rule brace_not_blank)
    show "loads demo_json (ascii ''{\"meetings\": [{\"id\": \"c\", \"title\": \"C\"}]}'') =
        Inr (JObj [(k_meetings, JArr (meetings ?md))])"
      unfolding demo_json_def by code_simp
  qed
  have a: "\<forall>m\<in>set (meetings ?md). \<not> has_id (ascii ''x'') m"
    by (simp add: has_id_dict)
  have before: "get_meeting_by_id demo_json example_disk (ascii ''x'') =
       (Inr (JObj [(k_id, JStr (ascii ''x'')), (k_title, JStr (ascii ''A'')),
                   (k_agenda, JStr (ascii ''B''))]), example_disk)"
    using get_meeting_by_id_dicts [OF example_read _ example_dicts, of "ascii ''x''"]
    by (simp add: example_meetings_def has_id_dict)
  show ?thesis
    using bulk_replace_overwrites [OF v w r b] a before
    by (simp add: bulk_body_def)
qed

text \<open>
  C7. A bulk request whose body lacks the \<open>meetings\<close> key is rejected by the validation of
  \<open>MeetingsData\<close> before the handler runs: the status is 422, the store is unchanged, and
  the 400 of the handler's own check is never raised.
\<close>

theorem bulk_without_meetings_is_422:
  "route_save_all_meetings js d (JObj []) = (Inl RequestValidationError, d)
   \<and> status_code RequestValidationError = 422"
  by (simp add: route_save_all_meetings_def)

lemma reraise_not_400:
  "fst r \<noteq> Inl (HTTPException 400 x) \<Longrightarrow> fst (reraise p r) \<noteq> Inl (HTTPException 400 x)"
  by (cases "(p, r)" rule: reraise.cases) auto

lemma bulk_never_400:
  "fst (route_save_all_meetings js d body) \<noteq> Inl (HTTPException 400 x)"
proof (cases "validate_MeetingsData body")
  case None
  then show ?thesis
    by (simp add: route_save_all_meetings_def)
next
  case (Some md)
  let ?r = "case write_data js (model_dump_MeetingsData md) d of
              (Inl e, d1) \<Rightarrow> (Inl e, d1)
            | (Inr _, d1) \<Rightarrow>
                (Inr \<lparr>success = True,
                      message = ascii ''All meetings data saved successfully'',
                      data = None\<rparr>, d1)"
  have "fst ?r \<noteq> Inl (HTTPException 400 x)"
    using write_data_not_400 [of js "model_dump_MeetingsData md" d x]
    by (auto split: prod.splits sum.splits)
  then have "fst (reraise (ascii ''Failed to save data: '') ?r) \<noteq> Inl (HTTPException 400 x)"
    by (rule reraise_not_400)
  with Some show ?thesis
    by (simp add: route_save_all_meetings_def save_all_meetings_def hasattr_meetings_def Let_def)
qed

end
